theory Spec2Isabelle
  imports Main "HOL-Library.Multiset" "HOL-Library.Sublist"
begin

section \<open>Container functions of kyaml: scoping, partitioning and failure handling\<close>

text \<open>
  A shallow embedding of \<^verbatim>\<open>kyaml/kio/filters/container.go\<close>: the storage-mount parser
  \<^verbatim>\<open>StringToStorageMount\<close>, the scope resolver \<^verbatim>\<open>getFunctionScope\<close>, the partitioner
  \<^verbatim>\<open>scope\<close> and the invocation \<^verbatim>\<open>Filter\<close> with its exit-status accessor \<^verbatim>\<open>GetExit\<close>.
  Go strings are byte strings, here \<^typ>\<open>string\<close>; a nil slice and an empty slice are both
  the empty list.
\<close>

subsection \<open>The Go standard library functions the file calls\<close>

text \<open>
  \<^verbatim>\<open>strings.HasPrefix(s, prefix)\<close>: whether \<^verbatim>\<open>s\<close> begins with \<^verbatim>\<open>prefix\<close>, byte by byte.
\<close>

fun strings_HasPrefix :: "string \<Rightarrow> string \<Rightarrow> bool" where
  "strings_HasPrefix s [] = True"
| "strings_HasPrefix [] (p # ps) = False"
| "strings_HasPrefix (c # cs) (p # ps) = (c = p \<and> strings_HasPrefix cs ps)"

text \<open>
  \<^verbatim>\<open>strings.Split(s, sep)\<close> for a separator of one byte, the only kind the file uses.
  As in Go's loop, the string is cut at the first separator as long as there is one,
  and what remains is the last element; a string without separator gives the list of
  that one string, the empty string included.
\<close>

function strings_Split :: "string \<Rightarrow> char \<Rightarrow> string list" where
  "strings_Split s sep =
     (if sep \<in> set s
      then takeWhile (\<lambda>c. c \<noteq> sep) s # strings_Split (tl (dropWhile (\<lambda>c. c \<noteq> sep) s)) sep
      else [s])"
  by pat_completeness auto
termination
proof (relation "measure (\<lambda>(s, sep). length s)")
  fix s :: string and sep :: char
  assume "sep \<in> set s"
  then have "dropWhile (\<lambda>c. c \<noteq> sep) s \<noteq> []"
    by (auto simp: dropWhile_eq_Nil_conv)
  moreover have "length (dropWhile (\<lambda>c. c \<noteq> sep) s) \<le> length s"
    by (rule length_dropWhile_le)
  ultimately show "((tl (dropWhile (\<lambda>c. c \<noteq> sep) s), sep), (s, sep))
      \<in> measure (\<lambda>(s, sep). length s)"
    by (cases "dropWhile (\<lambda>c. c \<noteq> sep) s") auto
qed simp

declare strings_Split.simps [simp del]

text \<open>
  \<^verbatim>\<open>strings.SplitN(s, sep, 2)\<close> for a separator of one byte: the part before the first
  separator and the unsplit remainder after it, or the string alone when it holds no
  separator.
\<close>

definition strings_SplitN2 :: "string \<Rightarrow> char \<Rightarrow> string list" where
  "strings_SplitN2 s sep =
     (if sep \<in> set s
      then [takeWhile (\<lambda>c. c \<noteq> sep) s, tl (dropWhile (\<lambda>c. c \<noteq> sep) s)]
      else [s])"

text \<open>
  \<^verbatim>\<open>path.Clean\<close>, byte by byte as the Go library writes it. The output buffer is the
  string \<open>out\<close> (Go's \<^verbatim>\<open>out.w\<close> is its length), \<open>dotdot\<close> the index where backtracking
  must stop. \<open>backtrack out dotdot w\<close> is the inner loop that moves \<^verbatim>\<open>out.w\<close> down to the
  last slash.
\<close>

fun backtrack :: "string \<Rightarrow> nat \<Rightarrow> nat \<Rightarrow> nat" where
  "backtrack out dotdot 0 = 0"
| "backtrack out dotdot (Suc w) =
     (if Suc w > dotdot \<and> out ! Suc w \<noteq> CHR ''/'' then backtrack out dotdot w else Suc w)"

function clean_loop :: "bool \<Rightarrow> string \<Rightarrow> string \<Rightarrow> nat \<Rightarrow> string" where
  "clean_loop rooted [] out dotdot = out"
| "clean_loop rooted (c # cs) out dotdot =
     (if c = CHR ''/'' then clean_loop rooted cs out dotdot
      else if c = CHR ''.'' \<and> (cs = [] \<or> hd cs = CHR ''/'') then clean_loop rooted cs out dotdot
      else if c = CHR ''.'' \<and> cs \<noteq> [] \<and> hd cs = CHR ''.''
                \<and> (tl cs = [] \<or> hd (tl cs) = CHR ''/'') then
        (if length out > dotdot then
           clean_loop rooted (tl cs) (take (backtrack out dotdot (length out - 1)) out) dotdot
         else if \<not> rooted then
           clean_loop rooted (tl cs)
             ((if length out > 0 then out @ ''/'' else out) @ ''..'')
             (length ((if length out > 0 then out @ ''/'' else out) @ ''..''))
         else clean_loop rooted (tl cs) out dotdot)
      else
        clean_loop rooted (dropWhile (\<lambda>x. x \<noteq> CHR ''/'') cs)
          ((if rooted \<and> length out \<noteq> 1 \<or> \<not> rooted \<and> length out \<noteq> 0
            then out @ ''/'' else out) @ c # takeWhile (\<lambda>x. x \<noteq> CHR ''/'') cs)
          dotdot)"
  by pat_completeness auto
termination
  by (relation "measure (\<lambda>(rooted, p, out, dotdot). length p)")
     (auto simp: le_imp_less_Suc length_dropWhile_le)

definition path_Clean :: "string \<Rightarrow> string" where
  "path_Clean p =
     (if p = [] then ''.''
      else let out = (if hd p = CHR ''/'' then clean_loop True (tl p) ''/'' 1
                      else clean_loop False p [] 0)
           in if out = [] then ''.'' else out)"

text \<open>
  \<^verbatim>\<open>path.Split\<close> cuts after the last slash; \<^verbatim>\<open>path.Dir\<close> cleans the part before the cut;
  \<^verbatim>\<open>path.Base\<close> strips trailing slashes and returns what follows the last slash left.
\<close>

definition path_Split :: "string \<Rightarrow> string \<times> string" where
  "path_Split p =
     (rev (dropWhile (\<lambda>c. c \<noteq> CHR ''/'') (rev p)),
      rev (takeWhile (\<lambda>c. c \<noteq> CHR ''/'') (rev p)))"

definition path_Dir :: "string \<Rightarrow> string" where
  "path_Dir p = path_Clean (fst (path_Split p))"

definition path_Base :: "string \<Rightarrow> string" where
  "path_Base p =
     (if p = [] then ''.''
      else let p1 = rev (dropWhile (\<lambda>c. c = CHR ''/'') (rev p));
               p2 = rev (takeWhile (\<lambda>c. c \<noteq> CHR ''/'') (rev p1))
           in if p2 = [] then ''/'' else p2)"

subsection \<open>Resources, errors and the filter's fields\<close>

text \<open>
  An error value: a plain error, or an error wrapped by \<^verbatim>\<open>errors.Wrap\<close>. A Go \<^verbatim>\<open>error\<close>
  that may be nil is an \<open>error option\<close>. A panic is not an error value: an index
  out of range carries the index and the length.
\<close>

datatype error = Error string | Wrapped error

datatype panic = IndexOutOfRange nat nat

text \<open>
  Modelled from the spec: the document tree \<^verbatim>\<open>yaml.RNode\<close> and its metadata
  \<^verbatim>\<open>yaml.ResourceMeta\<close> are declared outside the files at hand. A resource is an opaque
  document with a metadata view: kind, name, namespace and a mapping of string
  annotations. \<^verbatim>\<open>GetMeta\<close> either fails or gives that view; \<open>Doc\<close> stands for the rest of
  the document. A lookup in a nil Go map finds nothing, as in the empty map.
\<close>

record ResourceMeta =
  Kind :: string
  Name :: string
  Namespace :: string
  Annotations :: "string \<rightharpoonup> string"

record RNode =
  GetMeta :: "error + ResourceMeta"
  Doc :: string

text \<open>
  Modelled from the spec: the annotation keys \<^verbatim>\<open>kioutil.PathAnnotation\<close> (the origin path)
  and \<^verbatim>\<open>kioutil.IndexAnnotation\<close> (the index within the origin file) are constants declared
  outside the files at hand; no result depends on their spelling, only on their being two
  different keys.
\<close>

definition PathAnnotation :: string where
  "PathAnnotation = ''config.kubernetes.io/path''"

definition IndexAnnotation :: string where
  "IndexAnnotation = ''config.kubernetes.io/index''"

record StorageMount =
  MountType :: string
  Src :: string
  DstPath :: string

text \<open>
  The fields of \<^verbatim>\<open>ContainerFilter\<close>. The test hooks \<^verbatim>\<open>args\<close> and \<^verbatim>\<open>checkInput\<close> only choose
  how the process is spawned and observe its input; they are part of the process
  below. \<open>Exit\<close> is \<open>None\<close> for Go's nil error.
\<close>

record ContainerFilter =
  Image :: string
  Network :: string
  StorageMounts :: "StorageMount list"
  Config :: RNode
  GlobalScope :: bool
  ResultsFile :: string
  Results :: "RNode option"
  DeferFailure :: bool
  Exit :: "error option"
  SetFlowStyleForConfig :: bool

definition GetExit :: "ContainerFilter \<Rightarrow> error option" where
  "GetExit c = Exit c"

subsection \<open>StringToStorageMount\<close>

text \<open>
  The first loop fills the map \<open>m\<close>; \<^verbatim>\<open>keyVal[0]\<close> always exists, \<^verbatim>\<open>keyVal[1]\<close> only when
  the option holds an equals sign, and Go panics otherwise. The second loop ranges over
  the map, whose keys are unique, so each field is set at most once and the iteration
  order does not matter.
\<close>

fun fill_options :: "string list \<Rightarrow> (string \<rightharpoonup> string) \<Rightarrow> panic + (string \<rightharpoonup> string)" where
  "fill_options [] m = Inr m"
| "fill_options (option # options) m =
     (let keyVal = strings_SplitN2 option CHR ''=''
      in if 1 < length keyVal then fill_options options (m(keyVal ! 0 \<mapsto> keyVal ! 1))
         else Inl (IndexOutOfRange 1 (length keyVal)))"

definition mount_of_options :: "(string \<rightharpoonup> string) \<Rightarrow> StorageMount" where
  "mount_of_options m =
     \<lparr>MountType = (case m ''type'' of Some v \<Rightarrow> v | None \<Rightarrow> []),
      Src = (case m ''src'' of Some v \<Rightarrow> v | None \<Rightarrow> []),
      DstPath = (case m ''dst'' of Some v \<Rightarrow> v | None \<Rightarrow> [])\<rparr>"

definition StringToStorageMount :: "string \<Rightarrow> panic + StorageMount" where
  "StringToStorageMount s =
     (case fill_options (strings_Split s CHR '','') Map.empty of
        Inl p \<Rightarrow> Inl p
      | Inr m \<Rightarrow> Inr (mount_of_options m))"

subsection \<open>getFunctionScope and scope\<close>

definition functionsDirectoryName :: string where
  "functionsDirectoryName = ''functions''"

definition getFunctionScope :: "ContainerFilter \<Rightarrow> error + string" where
  "getFunctionScope c =
     (case GetMeta (Config c) of
        Inl err \<Rightarrow> Inl (Wrapped err)
      | Inr m \<Rightarrow>
          (case Annotations m PathAnnotation of
             None \<Rightarrow> Inr []
           | Some p \<Rightarrow>
               (let functionDir = path_Clean (path_Dir p)
                in if path_Base functionDir = functionsDirectoryName
                   then Inr (path_Dir functionDir)
                   else Inr functionDir)))"

text \<open>
  The loop of \<^verbatim>\<open>scope\<close>, with the two slices \<open>input\<close> and \<open>saved\<close> it appends to. A
  metadata error returns at once, with no slice.
\<close>

fun scope_loop ::
  "string \<Rightarrow> RNode list \<Rightarrow> RNode list \<Rightarrow> RNode list \<Rightarrow> error + (RNode list \<times> RNode list)" where
  "scope_loop dir [] input saved = Inr (input, saved)"
| "scope_loop dir (n # nodes) input saved =
     (case GetMeta n of
        Inl err \<Rightarrow> Inl err
      | Inr m \<Rightarrow>
          (case Annotations m PathAnnotation of
             None \<Rightarrow> scope_loop dir nodes input (saved @ [n])
           | Some p \<Rightarrow>
               (let resourceDir = path_Clean (path_Dir p);
                    resourceDir = (if path_Base resourceDir = functionsDirectoryName
                                   then path_Dir resourceDir else resourceDir)
                in if \<not> strings_HasPrefix resourceDir dir
                   then scope_loop dir nodes input (saved @ [n])
                   else scope_loop dir nodes (input @ [n]) saved)))"

definition scope ::
  "ContainerFilter \<Rightarrow> string \<Rightarrow> RNode list \<Rightarrow> error + (RNode list \<times> RNode list)" where
  "scope c dir nodes =
     (if GlobalScope c then Inr (nodes, [])
      else if dir = [] \<or> dir = ''.'' then Inr (nodes, [])
      else scope_loop dir nodes [] [])"

subsection \<open>Filter\<close>

text \<open>
  What \<^verbatim>\<open>Filter\<close> calls outside this file, as the fields of one record: the encoder
  \<^verbatim>\<open>kio.ByteWriter.Write\<close> (function configuration and input to the bytes of the buffer
  \<^verbatim>\<open>in\<close>), the process \<^verbatim>\<open>cmd.Run\<close> (from the filter and the bytes on its standard input to
  its exit error and the bytes of its standard output), the decoder \<^verbatim>\<open>kio.ByteReader.Read\<close>
  (to the output resources and the optional results document), the serialisation of the
  results document, \<^verbatim>\<open>ioutil.WriteFile\<close> with mode 0600, and
  \<^verbatim>\<open>kioutil.DefaultPathAnnotation\<close>. The last one changes the decoded resources in place
  and returns an error or nil: here it returns the resources as it leaves them. The
  command line that \<^verbatim>\<open>getCommand\<close> builds from the image, the network, the mounts and the
  environment decides nothing but what the process does, so it is part of \<open>Run\<close>, which
  takes the filter for that reason.
\<close>

record Collaborators =
  Write :: "RNode \<Rightarrow> RNode list \<Rightarrow> error + string"
  Run :: "ContainerFilter \<Rightarrow> string \<Rightarrow> error option \<times> string"
  Read :: "string \<Rightarrow> error + (RNode list \<times> RNode option)"
  ResultsString :: "RNode \<Rightarrow> error + string"
  WriteFile :: "string \<Rightarrow> string \<Rightarrow> error option"
  DefaultPathAnnotation :: "string \<Rightarrow> RNode list \<Rightarrow> error + RNode list"

definition doResults ::
  "Collaborators \<Rightarrow> ContainerFilter \<Rightarrow> RNode option \<Rightarrow> ContainerFilter \<times> error option" where
  "doResults env c results =
     (case (if ResultsFile c \<noteq> [] \<and> results \<noteq> None
            then (case ResultsString env (the results) of
                    Inl err \<Rightarrow> Some err
                  | Inr text \<Rightarrow> WriteFile env (ResultsFile c) text)
            else None) of
        Some err \<Rightarrow> (c, Some err)
      | None \<Rightarrow> ((if results \<noteq> None then c\<lparr>Results := results\<rparr> else c), None))"

text \<open>
  \<^verbatim>\<open>Filter\<close> returns the filter as it leaves it (its \<open>Exit\<close> and \<open>Results\<close> fields are
  assigned on the way), the returned slice and the returned error.
\<close>

definition Filter ::
  "Collaborators \<Rightarrow> ContainerFilter \<Rightarrow> RNode list \<Rightarrow> ContainerFilter \<times> RNode list \<times> error option" where
  "Filter env c nodes =
     (case getFunctionScope c of
        Inl err \<Rightarrow> (c, [], Some err)
      | Inr functionDir \<Rightarrow>
     (case scope c functionDir nodes of
        Inl err \<Rightarrow> (c, [], Some err)
      | Inr (input, saved) \<Rightarrow>
     (case Write env (Config c) input of
        Inl err \<Rightarrow> (c, [], Some err)
      | Inr stdin \<Rightarrow>
     (let (exit, stdout) = Run env c stdin;
          c1 = c\<lparr>Exit := exit\<rparr>
      in case Read env stdout of
        Inl err \<Rightarrow> (c1, [], Some err)
      | Inr (output, results) \<Rightarrow>
     (case doResults env c1 results of
        (c2, Some err) \<Rightarrow> (c2, [], Some err)
      | (c2, None) \<Rightarrow>
          if Exit c2 \<noteq> None \<and> \<not> DeferFailure c2 then (c2, output @ saved, Exit c2)
          else (case DefaultPathAnnotation env functionDir output of
                  Inl err \<Rightarrow> (c2, [], Some err)
                | Inr output' \<Rightarrow> (c2, output' @ saved, None)))))))"

subsection \<open>The scoping rule in the words of the design\<close>

text \<open>
  The rewrite for the reserved directory name, shared by scope resolution and
  partitioning: a directory whose final segment (\<^verbatim>\<open>path.Base\<close>) is \<^verbatim>\<open>functions\<close> stands
  for its parent (\<^verbatim>\<open>path.Dir\<close>). \<open>resourceDir\<close> is the directory a path annotation
  resolves to, and \<open>inScope dir n\<close> says that the resource \<open>n\<close> has readable metadata, an
  origin path, and a resolved directory that begins with \<open>dir\<close>.
\<close>

definition rewriteForReservedDir :: "string \<Rightarrow> string" where
  "rewriteForReservedDir d = (if path_Base d = functionsDirectoryName then path_Dir d else d)"

definition resourceDir :: "string \<Rightarrow> string" where
  "resourceDir p = rewriteForReservedDir (path_Clean (path_Dir p))"

definition inScope :: "string \<Rightarrow> RNode \<Rightarrow> bool" where
  "inScope dir n =
     (case GetMeta n of
        Inl err \<Rightarrow> False
      | Inr m \<Rightarrow>
          (case Annotations m PathAnnotation of
             None \<Rightarrow> False
           | Some p \<Rightarrow> strings_HasPrefix (resourceDir p) dir))"

text \<open>
  A directory is a path-segment descendant of \<open>dir\<close> when it is \<open>dir\<close> followed by a
  slash and more, where a \<open>dir\<close> that ends with a slash, as the root \<^verbatim>\<open>/\<close> does, brings
  its own slash; \<open>segmentScoped\<close> is the segment-aware test the design asks for.
\<close>

definition segmentScoped :: "string \<Rightarrow> string \<Rightarrow> bool" where
  "segmentScoped dir d =
     (d = dir \<or>
      strings_HasPrefix d (if dir \<noteq> [] \<and> last dir = CHR ''/'' then dir else dir @ ''/''))"

subsection \<open>Provenance defaulting\<close>

text \<open>
  The decimal digits of a natural number, as \<^verbatim>\<open>%d\<close> prints them.
\<close>

fun decimal :: "nat \<Rightarrow> string" where
  "decimal n =
     (if n < 10 then [char_of (48 + n)]
      else decimal (n div 10) @ [char_of (48 + n mod 10)])"

declare decimal.simps [simp del]

definition alphanumeric :: "char \<Rightarrow> bool" where
  "alphanumeric c =
     (let n = (of_char c :: nat)
      in (48 \<le> n \<and> n \<le> 57) \<or> (65 \<le> n \<and> n \<le> 90) \<or> (97 \<le> n \<and> n \<le> 122))"

definition lower_char :: "char \<Rightarrow> char" where
  "lower_char c =
     (let n = (of_char c :: nat) in if 65 \<le> n \<and> n \<le> 90 then char_of (n + 32) else c)"

fun join_segments :: "string list \<Rightarrow> string" where
  "join_segments [] = []"
| "join_segments [s] = s"
| "join_segments (s # t # ss) = s @ ''/'' @ join_segments (t # ss)"

text \<open>
  Modelled from the spec: \<^verbatim>\<open>kioutil.DefaultPathAnnotation\<close> is outside the files at hand.
  The default path is the scope directory, the function's file stem, the resource's
  namespace if it is not empty, and the file name \<^verbatim>\<open><kind>_<name>.yaml\<close> with kind and
  name in lower case and every other character normalised. The spec names neither the
  stem's source nor the normalisation, so both are arguments here
  (\<open>stem\<close>, \<open>normalise\<close>).
\<close>

definition file_part :: "(char \<Rightarrow> char) \<Rightarrow> string \<Rightarrow> string" where
  "file_part normalise s = map (\<lambda>c. if alphanumeric c then lower_char c else normalise c) s"

definition default_path :: "string \<Rightarrow> (char \<Rightarrow> char) \<Rightarrow> string \<Rightarrow> ResourceMeta \<Rightarrow> string" where
  "default_path stem normalise dir m =
     join_segments
       ([dir, stem] @ (if Namespace m \<noteq> [] then [Namespace m] else [])
        @ [file_part normalise (Kind m) @ ''_'' @ file_part normalise (Name m) @ ''.yaml''])"

text \<open>
  Modelled from the spec: provenance defaulting (\<^verbatim>\<open>assignDefaults\<close> in the spec,
  \<^verbatim>\<open>kioutil.DefaultPathAnnotation\<close> in the code, outside the files at hand) adds the
  origin-path and index annotations to every resource that lacks the origin path, and
  never touches a resource that has it. The index tells apart the resources that get
  the same default path: it counts the earlier ones of this call. A resource whose
  metadata cannot be read aborts the call, as the error result of the Go function
  allows.
\<close>

fun assign_loop ::
  "(ResourceMeta \<Rightarrow> string) \<Rightarrow> (string \<Rightarrow> nat) \<Rightarrow> RNode list \<Rightarrow> error + RNode list" where
  "assign_loop synth counts [] = Inr []"
| "assign_loop synth counts (n # nodes) =
     (case GetMeta n of
        Inl err \<Rightarrow> Inl err
      | Inr m \<Rightarrow>
          (case Annotations m PathAnnotation of
             Some p \<Rightarrow>
               (case assign_loop synth counts nodes of
                  Inl err \<Rightarrow> Inl err
                | Inr nodes' \<Rightarrow> Inr (n # nodes'))
           | None \<Rightarrow>
               (let path = synth m;
                    n' = n\<lparr>GetMeta := Inr (m\<lparr>Annotations :=
                           (Annotations m)(PathAnnotation \<mapsto> path,
                                           IndexAnnotation \<mapsto> decimal (counts path))\<rparr>)\<rparr>
                in case assign_loop synth (counts(path := Suc (counts path))) nodes of
                     Inl err \<Rightarrow> Inl err
                   | Inr nodes' \<Rightarrow> Inr (n' # nodes'))))"

definition assignDefaults ::
  "string \<Rightarrow> (char \<Rightarrow> char) \<Rightarrow> string \<Rightarrow> RNode list \<Rightarrow> error + RNode list" where
  "assignDefaults stem normalise dir nodes =
     assign_loop (default_path stem normalise dir) (\<lambda>path. 0) nodes"

subsection \<open>Paths by segments\<close>

text \<open>
  To say what the final segment and the parent of a directory are without \<^verbatim>\<open>path.Base\<close>
  and \<^verbatim>\<open>path.Dir\<close>: an ordinary segment is a name, not empty, without slash, and neither
  \<^verbatim>\<open>.\<close> nor \<^verbatim>\<open>..\<close>. \<open>slashed segs\<close> writes each segment followed by a slash, so that
  \<open>root_prefix rooted @ slashed segs @ file\<close> is the path of \<open>file\<close> in the directory with
  the segments \<open>segs\<close>. \<open>render rooted segs\<close> is the clean name of that directory: the
  segments joined by slashes, after the root slash if any, and \<^verbatim>\<open>.\<close> for a relative
  directory without segments. \<open>slash_before\<close> is the slash \<^verbatim>\<open>path.Clean\<close> writes before a
  path element.
\<close>

definition ordinary :: "string \<Rightarrow> bool" where
  "ordinary s = (s \<noteq> [] \<and> CHR ''/'' \<notin> set s \<and> s \<noteq> ''.'' \<and> s \<noteq> ''..'')"

definition slashed :: "string list \<Rightarrow> string" where
  "slashed segs = concat (map (\<lambda>s. s @ ''/'') segs)"

definition root_prefix :: "bool \<Rightarrow> string" where
  "root_prefix rooted = (if rooted then ''/'' else [])"

definition render :: "bool \<Rightarrow> string list \<Rightarrow> string" where
  "render rooted segs =
     (if rooted then ''/'' @ join_segments segs
      else if segs = [] then ''.'' else join_segments segs)"

definition slash_before :: "bool \<Rightarrow> string \<Rightarrow> string" where
  "slash_before rooted out =
     (if rooted \<and> length out \<noteq> 1 \<or> \<not> rooted \<and> length out \<noteq> 0 then out @ ''/'' else out)"

subsection \<open>Example resources\<close>

text \<open>
  A resource of a given kind and name read from the file \<open>p\<close>, one with no origin
  path, and one whose metadata cannot be read.
\<close>

definition resource_at :: "string \<Rightarrow> string \<Rightarrow> string \<Rightarrow> RNode" where
  "resource_at kind name p =
     \<lparr>GetMeta = Inr \<lparr>Kind = kind, Name = name, Namespace = [],
                      Annotations = [PathAnnotation \<mapsto> p]\<rparr>,
      Doc = []\<rparr>"

definition resource_new :: "string \<Rightarrow> string \<Rightarrow> RNode" where
  "resource_new kind name =
     \<lparr>GetMeta = Inr \<lparr>Kind = kind, Name = name, Namespace = [], Annotations = Map.empty\<rparr>,
      Doc = []\<rparr>"

definition resource_broken :: RNode where
  "resource_broken = \<lparr>GetMeta = Inl (Error ''no metadata''), Doc = []\<rparr>"

text \<open>
  A filter whose function configuration was read from the file \<open>p\<close>.
\<close>

definition filter_at :: "string \<Rightarrow> bool \<Rightarrow> bool \<Rightarrow> ContainerFilter" where
  "filter_at p global defer =
     \<lparr>Image = ''example.com/fn:v1'', Network = [], StorageMounts = [],
      Config = resource_at ''Fn'' ''fn'' p, GlobalScope = global, ResultsFile = [],
      Results = None, DeferFailure = defer, Exit = None, SetFlowStyleForConfig = False\<rparr>"

text \<open>
  A process that ignores its input, prints what decodes to \<open>output\<close> and exits with
  \<open>exit\<close>; the encoder and the decoder never fail, and provenance defaulting is the
  \<open>assignDefaults\<close> above for a function file \<^verbatim>\<open>fn.yaml\<close>.
\<close>

definition process :: "error option \<Rightarrow> RNode list \<Rightarrow> Collaborators" where
  "process exit output =
     \<lparr>Write = (\<lambda>config input. Inr ''in''),
      Run = (\<lambda>c stdin. (exit, ''out'')),
      Read = (\<lambda>stdout. Inr (output, None)),
      ResultsString = (\<lambda>results. Inr []),
      WriteFile = (\<lambda>name text. None),
      DefaultPathAnnotation = assignDefaults ''fn'' (\<lambda>c. CHR ''_'')\<rparr>"

text \<open>
  A resource that carries an origin path and an index; a process as above that also
  prints a results document, with a file write that ends as \<open>failure\<close> says; and a
  filter with a results file.
\<close>

definition resource_indexed :: "string \<Rightarrow> string \<Rightarrow> string \<Rightarrow> string \<Rightarrow> RNode" where
  "resource_indexed kind name p i =
     \<lparr>GetMeta = Inr \<lparr>Kind = kind, Name = name, Namespace = [],
                      Annotations = [PathAnnotation \<mapsto> p, IndexAnnotation \<mapsto> i]\<rparr>,
      Doc = []\<rparr>"

definition process_results ::
  "error option \<Rightarrow> RNode list \<Rightarrow> RNode \<Rightarrow> error option \<Rightarrow> Collaborators" where
  "process_results exit output results failure =
     (process exit output)
       \<lparr>Read := (\<lambda>stdout. Inr (output, Some results)),
        WriteFile := (\<lambda>name text. failure)\<rparr>"

definition filter_results :: "string \<Rightarrow> string \<Rightarrow> bool \<Rightarrow> ContainerFilter" where
  "filter_results p results_file defer = (filter_at p False defer)\<lparr>ResultsFile := results_file\<rparr>"

section \<open>Properties\<close>

subsection \<open>The loop of the partitioner\<close>

text \<open>
  The loop fails with the metadata error of the first resource whose metadata cannot be
  read; otherwise it appends to \<open>input\<close> the resources in scope and to \<open>saved\<close> the
  others, each in the order of the input.
\<close>

lemmas path_defs = path_Dir_def path_Clean_def path_Split_def path_Base_def
  functionsDirectoryName_def PathAnnotation_def

lemma scope_loop_char:
  "scope_loop dir nodes input saved =
     (case List.find (\<lambda>n. isl (GetMeta n)) nodes of
        Some n \<Rightarrow> Inl (projl (GetMeta n))
      | None \<Rightarrow> Inr (input @ filter (inScope dir) nodes,
                    saved @ filter (\<lambda>n. \<not> inScope dir n) nodes))"
  by (induction nodes arbitrary: input saved)
     (auto simp: inScope_def resourceDir_def rewriteForReservedDir_def Let_def
           split: sum.splits option.splits)

lemma scope_loop_Inr:
  assumes "scope_loop dir nodes [] [] = Inr (input, saved)"
  shows "input = filter (inScope dir) nodes"
    and "saved = filter (\<lambda>n. \<not> inScope dir n) nodes"
  using assms by (simp_all add: scope_loop_char split: option.splits)

lemma scope_loop_first_error:
  assumes "\<forall>x\<in>set pre. \<exists>m. GetMeta x = Inr m" and "GetMeta n' = Inl err'"
  shows "scope_loop dir (pre @ n' # post) input saved = Inl err'"
  using assms
proof (induction pre arbitrary: input saved)
  case Nil
  then show ?case by simp
next
  case (Cons x pre)
  then obtain m where "GetMeta x = Inr m" by auto
  with Cons show ?case
    by (simp add: Let_def split: option.splits)
qed

lemma scope_loop_Inl:
  assumes "n \<in> set nodes" and "GetMeta n = Inl err"
  shows "\<exists>pre n' post err'. nodes = pre @ n' # post
      \<and> (\<forall>x\<in>set pre. \<exists>m. GetMeta x = Inr m) \<and> GetMeta n' = Inl err'
      \<and> scope_loop dir nodes input saved = Inl err'"
proof -
  from assms have "\<exists>x\<in>set nodes. isl (GetMeta x)" by (auto simp: isl_def)
  from split_list_first_prop [OF this] obtain pre n' post
    where nodes: "nodes = pre @ n' # post" and n': "isl (GetMeta n')"
      and pre: "\<forall>x\<in>set pre. \<not> isl (GetMeta x)"
    by blast
  from n' obtain err' where e: "GetMeta n' = Inl err'" by (auto simp: isl_def)
  from pre have readable: "\<forall>x\<in>set pre. \<exists>m. GetMeta x = Inr m"
    by (metis isl_def sum.exhaust)
  from scope_loop_first_error [OF readable e] nodes readable e show ?thesis
    by blast
qed

lemma scope_Inr_filter:
  assumes "scope c dir nodes = Inr (input, saved)"
  shows "\<exists>P. input = filter P nodes \<and> saved = filter (\<lambda>n. \<not> P n) nodes"
proof (cases "GlobalScope c \<or> dir = [] \<or> dir = ''.''")
  case True
  with assms have "input = filter (\<lambda>n. True) nodes \<and> saved = filter (\<lambda>n. \<not> True) nodes"
    by (auto simp: scope_def split: if_splits)
  then show ?thesis by blast
next
  case False
  with assms have "scope_loop dir nodes [] [] = Inr (input, saved)"
    by (simp add: scope_def)
  then show ?thesis using scope_loop_Inr by blast
qed

lemma filter_partition_mset:
  "mset (filter P xs) + mset (filter (\<lambda>x. \<not> P x) xs) = mset xs"
  by (induction xs) auto

text \<open>
  The end-to-end scenario of the design: a function at \<^verbatim>\<open>dir/fn.yaml\<close> and resources
  from \<^verbatim>\<open>dir\<close>, from a subdirectory, from elsewhere, and from nowhere.
\<close>

lemma scope_example_dir:
  "scope (filter_at ''dir/fn.yaml'' False d) ''dir''
     [resource_at ''A'' ''a'' ''dir/a.yaml'', resource_new ''Foo'' ''bar'',
      resource_at ''B'' ''b'' ''dir/sub/b.yaml'', resource_at ''C'' ''c'' ''other/c.yaml'']
   = Inr ([resource_at ''A'' ''a'' ''dir/a.yaml'', resource_at ''B'' ''b'' ''dir/sub/b.yaml''],
          [resource_new ''Foo'' ''bar'', resource_at ''C'' ''c'' ''other/c.yaml''])"
  by (simp add: scope_def filter_at_def resource_at_def resource_new_def path_defs)

subsection \<open>The stages of Filter\<close>

text \<open>
  \<^verbatim>\<open>doResults\<close> leaves the exit status and the failure policy alone. Once the process
  has run and its output is decoded, \<^verbatim>\<open>Filter\<close> either returns on the failure path with
  the decoded output as it is, or runs provenance defaulting and returns its result;
  both times the out-of-scope resources follow.
\<close>

lemma doResults_fields:
  assumes "doResults env c results = (c2, err)"
  shows "Exit c2 = Exit c" and "DeferFailure c2 = DeferFailure c"
  using assms by (auto simp: doResults_def split: option.splits if_splits sum.splits)

lemma Filter_after_process:
  assumes "getFunctionScope c = Inr functionDir"
    and "scope c functionDir nodes = Inr (input, saved)"
    and "Write env (Config c) input = Inr stdin"
    and "Run env c stdin = (exit, stdout)"
    and "Read env stdout = Inr (output, results)"
    and "doResults env (c\<lparr>Exit := exit\<rparr>) results = (c2, None)"
  shows "Filter env c nodes =
     (if exit \<noteq> None \<and> \<not> DeferFailure c then (c2, output @ saved, exit)
      else (case DefaultPathAnnotation env functionDir output of
              Inl err \<Rightarrow> (c2, [], Some err)
            | Inr output' \<Rightarrow> (c2, output' @ saved, None)))"
proof -
  from doResults_fields [OF assms(6)] have "Exit c2 = exit" and "DeferFailure c2 = DeferFailure c"
    by simp_all
  with assms show ?thesis by (auto simp: Filter_def)
qed

lemma Filter_result_cases:
  assumes "getFunctionScope c = Inr functionDir"
    and "scope c functionDir nodes = Inr (input, saved)"
    and "Filter env c nodes = (c', res, err)"
  shows "(res = [] \<and> err \<noteq> None)
       \<or> (\<exists>stdin exit stdout output results.
             Write env (Config c) input = Inr stdin \<and> Run env c stdin = (exit, stdout)
           \<and> Read env stdout = Inr (output, results)
           \<and> ((res = output @ saved \<and> err = exit \<and> exit \<noteq> None \<and> \<not> DeferFailure c)
              \<or> (\<exists>output'. DefaultPathAnnotation env functionDir output = Inr output'
                    \<and> res = output' @ saved \<and> err = None)))"
proof (cases "Write env (Config c) input")
  case (Inl e)
  with assms show ?thesis by (auto simp: Filter_def)
next
  case (Inr stdin)
  obtain exit stdout where run: "Run env c stdin = (exit, stdout)" by (cases "Run env c stdin")
  show ?thesis
  proof (cases "Read env stdout")
    case (Inl e)
    with assms Inr run show ?thesis by (auto simp: Filter_def)
  next
    case read: (Inr r)
    obtain outp rslt where r: "r = (outp, rslt)" by (cases r)
    obtain c2 e2 where dr: "doResults env (c\<lparr>Exit := exit\<rparr>) rslt = (c2, e2)"
      by (cases "doResults env (c\<lparr>Exit := exit\<rparr>) rslt")
    show ?thesis
    proof (cases e2)
      case (Some e)
      with assms Inr run read r dr show ?thesis by (auto simp: Filter_def)
    next
      case None
      note fa = Filter_after_process [OF assms(1,2) Inr run read [unfolded r] dr [unfolded None]]
      show ?thesis
      proof (cases "exit \<noteq> None \<and> \<not> DeferFailure c")
        case True
        with fa assms(3) Inr run read r show ?thesis by auto
      next
        case False
        with fa assms(3) Inr run read r show ?thesis
          by (cases "DefaultPathAnnotation env functionDir outp") auto
      qed
    qed
  qed
qed

lemma doResults_env:
  "doResults (env\<lparr>DefaultPathAnnotation := d\<rparr>) c results = doResults env c results"
  by (simp add: doResults_def split: sum.splits)

lemma Filter_after_run:
  assumes "getFunctionScope c = Inr functionDir"
    and "scope c functionDir nodes = Inr (input, saved)"
    and "Write env (Config c) input = Inr stdin"
    and "Run env c stdin = (exit, stdout)"
  shows "Filter env c nodes =
     (case Read env stdout of
        Inl err \<Rightarrow> (c\<lparr>Exit := exit\<rparr>, [], Some err)
      | Inr (output, results) \<Rightarrow>
          (case doResults env (c\<lparr>Exit := exit\<rparr>) results of
             (c2, Some err) \<Rightarrow> (c2, [], Some err)
           | (c2, None) \<Rightarrow>
               if exit \<noteq> None \<and> \<not> DeferFailure c then (c2, output @ saved, exit)
               else (case DefaultPathAnnotation env functionDir output of
                       Inl err \<Rightarrow> (c2, [], Some err)
                     | Inr output' \<Rightarrow> (c2, output' @ saved, None))))"
proof (cases "Read env stdout")
  case (Inl err)
  with assms show ?thesis by (simp add: Filter_def)
next
  case (Inr r)
  obtain outp rslt where r: "r = (outp, rslt)" by (cases r)
  obtain c2 e2 where dr: "doResults env (c\<lparr>Exit := exit\<rparr>) rslt = (c2, e2)"
    by (cases "doResults env (c\<lparr>Exit := exit\<rparr>) rslt")
  show ?thesis
  proof (cases e2)
    case None
    from Filter_after_process [OF assms Inr [unfolded r] dr [unfolded None]] Inr r dr None
    show ?thesis by simp
  next
    case (Some err)
    with assms Inr r dr show ?thesis by (simp add: Filter_def)
  qed
qed

subsection \<open>The end-to-end scenario, evaluated\<close>

text \<open>
  A function at \<^verbatim>\<open>dir/fn.yaml\<close> resolves to the scope \<^verbatim>\<open>dir\<close>. Its process returns
  the two resources it was given and a new resource of kind \<^verbatim>\<open>Foo\<close> and name \<^verbatim>\<open>bar\<close>;
  the new one gets the default path \<^verbatim>\<open>dir/fn/foo_bar.yaml\<close>, and the resources that were
  held back follow.
\<close>

lemma getFunctionScope_example_dir:
  "getFunctionScope (filter_at ''dir/fn.yaml'' g d) = Inr ''dir''"
  by (simp add: getFunctionScope_def filter_at_def resource_at_def path_defs)

lemma decimal_0: "decimal 0 = ''0''"
  by code_simp

lemma default_path_example:
  "default_path ''fn'' (\<lambda>c. CHR ''_'') ''dir''
     \<lparr>Kind = ''Foo'', Name = ''bar'', Namespace = [], Annotations = Map.empty\<rparr>
   = ''dir/fn/foo_bar.yaml''"
  by code_simp

lemma assignDefaults_example:
  "assignDefaults ''fn'' (\<lambda>c. CHR ''_'') ''dir''
     [resource_at ''A'' ''a'' ''dir/a.yaml'', resource_at ''B'' ''b'' ''dir/sub/b.yaml'',
      resource_new ''Foo'' ''bar'']
   = Inr [resource_at ''A'' ''a'' ''dir/a.yaml'', resource_at ''B'' ''b'' ''dir/sub/b.yaml'',
          resource_at ''Foo'' ''bar'' ''dir/fn/foo_bar.yaml''
            \<lparr>GetMeta := Inr \<lparr>Kind = ''Foo'', Name = ''bar'', Namespace = [],
               Annotations = [PathAnnotation \<mapsto> ''dir/fn/foo_bar.yaml'', IndexAnnotation \<mapsto> ''0'']\<rparr>\<rparr>]"
  by (simp add: assignDefaults_def resource_at_def resource_new_def default_path_example
      decimal_0 Let_def)

lemma Filter_example_dir:
  "Filter (process None [resource_at ''A'' ''a'' ''dir/a.yaml'', resource_at ''B'' ''b'' ''dir/sub/b.yaml'',
                         resource_new ''Foo'' ''bar''])
     (filter_at ''dir/fn.yaml'' False False)
     [resource_at ''A'' ''a'' ''dir/a.yaml'', resource_new ''Foo'' ''bar'',
      resource_at ''B'' ''b'' ''dir/sub/b.yaml'', resource_at ''C'' ''c'' ''other/c.yaml'']
   = (filter_at ''dir/fn.yaml'' False False,
      [resource_at ''A'' ''a'' ''dir/a.yaml'', resource_at ''B'' ''b'' ''dir/sub/b.yaml'',
       resource_at ''Foo'' ''bar'' ''dir/fn/foo_bar.yaml''
            \<lparr>GetMeta := Inr \<lparr>Kind = ''Foo'', Name = ''bar'', Namespace = [],
               Annotations = [PathAnnotation \<mapsto> ''dir/fn/foo_bar.yaml'', IndexAnnotation \<mapsto> ''0'']\<rparr>\<rparr>]
      @ [resource_new ''Foo'' ''bar'', resource_at ''C'' ''c'' ''other/c.yaml''],
      None)"
  by (simp add: Filter_def getFunctionScope_example_dir scope_example_dir process_def
      doResults_def assignDefaults_example) (simp add: filter_at_def)

lemma assignDefaults_example_new:
  "assignDefaults ''fn'' (\<lambda>c. CHR ''_'') ''dir'' [resource_new ''Foo'' ''bar'']
   = Inr [resource_at ''Foo'' ''bar'' ''dir/fn/foo_bar.yaml''
            \<lparr>GetMeta := Inr \<lparr>Kind = ''Foo'', Name = ''bar'', Namespace = [],
               Annotations = [PathAnnotation \<mapsto> ''dir/fn/foo_bar.yaml'', IndexAnnotation \<mapsto> ''0'']\<rparr>\<rparr>]"
  by (simp add: assignDefaults_def resource_at_def resource_new_def default_path_example
      decimal_0 Let_def)

lemma process_fields:
  "Write (process exit outp) config input = Inr ''in''"
  "Run (process exit outp) c stdin = (exit, ''out'')"
  "Read (process exit outp) stdout = Inr (outp, None)"
  "doResults (process exit outp) c None = (c, None)"
  "DefaultPathAnnotation (process exit outp) = assignDefaults ''fn'' (\<lambda>c. CHR ''_'')"
  by (simp_all add: process_def doResults_def)

lemma assignDefaults_example_indexed:
  "assignDefaults ''fn'' (\<lambda>c. CHR ''_'') ''dir'' [resource_new ''Foo'' ''bar'']
   = Inr [resource_indexed ''Foo'' ''bar'' ''dir/fn/foo_bar.yaml'' ''0'']"
  unfolding assignDefaults_example_new
  by (simp add: resource_at_def resource_indexed_def)

lemma resource_indexed_not_new:
  "resource_indexed kind name p i \<noteq> resource_new kind' name'"
proof -
  have "[PathAnnotation \<mapsto> p, IndexAnnotation \<mapsto> i] PathAnnotation
      \<noteq> (Map.empty :: string \<rightharpoonup> string) PathAnnotation"
    by (simp add: PathAnnotation_def IndexAnnotation_def)
  then have "[PathAnnotation \<mapsto> p, IndexAnnotation \<mapsto> i] \<noteq> (Map.empty :: string \<rightharpoonup> string)"
    by metis
  then show ?thesis
    by (simp add: resource_indexed_def resource_new_def)
qed

lemma assignDefaults_example_broken:
  "assignDefaults ''fn'' (\<lambda>c. CHR ''_'') ''dir'' [resource_broken] = Inl (Error ''no metadata'')"
  by (simp add: assignDefaults_def resource_broken_def)

lemma process_results_fields:
  "Write (process_results exit outp results failure) config input = Inr ''in''"
  "Run (process_results exit outp results failure) c stdin = (exit, ''out'')"
  "Read (process_results exit outp results failure) stdout = Inr (outp, Some results)"
  "doResults (process_results exit outp results (Some err)) (filter_results p (r # rs) defer\<lparr>Exit := x\<rparr>)
     (Some results) = (filter_results p (r # rs) defer\<lparr>Exit := x\<rparr>, Some err)"
  by (simp_all add: process_results_def process_def doResults_def filter_results_def)

lemma filter_results_scope:
  "getFunctionScope (filter_results ''dir/fn.yaml'' rf defer) = Inr ''dir''"
  "scope (filter_results ''dir/fn.yaml'' rf defer) ''dir''
     [resource_at ''A'' ''a'' ''dir/a.yaml'', resource_new ''Foo'' ''bar'',
      resource_at ''B'' ''b'' ''dir/sub/b.yaml'', resource_at ''C'' ''c'' ''other/c.yaml'']
   = Inr ([resource_at ''A'' ''a'' ''dir/a.yaml'', resource_at ''B'' ''b'' ''dir/sub/b.yaml''],
          [resource_new ''Foo'' ''bar'', resource_at ''C'' ''c'' ''other/c.yaml''])"
  by (simp_all add: getFunctionScope_def scope_def filter_results_def filter_at_def
      resource_at_def resource_new_def path_defs)

subsection \<open>Clean, Dir and Base on paths made of ordinary segments\<close>

text \<open>
  \<^verbatim>\<open>path.Clean\<close> copies an ordinary segment to its output, after a slash where one is
  due. So it is the identity on the clean name of a directory, it removes the slash
  after the last segment, \<^verbatim>\<open>path.Base\<close> of a clean name is the last segment, and
  \<^verbatim>\<open>path.Dir\<close> of a clean name is the clean name without the last segment. The
  directory an origin path resolves to follows: the directory of the file, without its
  last segment when that segment is \<^verbatim>\<open>functions\<close>.
\<close>

lemma until_slash:
  assumes "CHR ''/'' \<notin> set s" and "rest = [] \<or> hd rest = CHR ''/''"
  shows "takeWhile (\<lambda>x. x \<noteq> CHR ''/'') (s @ rest) = s"
    and "dropWhile (\<lambda>x. x \<noteq> CHR ''/'') (s @ rest) = rest"
proof -
  from assms(2) have t: "takeWhile (\<lambda>x. x \<noteq> CHR ''/'') rest = []"
    and d: "dropWhile (\<lambda>x. x \<noteq> CHR ''/'') rest = rest"
    by (cases rest; auto)+
  from assms(1) have all: "\<forall>x\<in>set s. x \<noteq> CHR ''/''" by auto
  from all t show "takeWhile (\<lambda>x. x \<noteq> CHR ''/'') (s @ rest) = s"
    by (simp add: takeWhile_append2)
  from all d show "dropWhile (\<lambda>x. x \<noteq> CHR ''/'') (s @ rest) = rest"
    by (simp add: dropWhile_append2)
qed

lemma clean_loop_ordinary:
  assumes "ordinary s" and "rest = [] \<or> hd rest = CHR ''/''"
  shows "clean_loop rooted (s @ rest) out dotdot =
     clean_loop rooted rest (slash_before rooted out @ s) dotdot"
proof -
  from assms(1) obtain c cs where s: "s = c # cs"
    by (cases s) (auto simp: ordinary_def)
  from assms(1) s have c: "c \<noteq> CHR ''/''" and cs: "CHR ''/'' \<notin> set cs"
    by (auto simp: ordinary_def)
  have dot: "\<not> (c = CHR ''.'' \<and> (cs @ rest = [] \<or> hd (cs @ rest) = CHR ''/''))"
    using assms s cs by (cases cs) (auto simp: ordinary_def)
  have dotdot: "\<not> (c = CHR ''.'' \<and> cs @ rest \<noteq> [] \<and> hd (cs @ rest) = CHR ''.''
      \<and> (tl (cs @ rest) = [] \<or> hd (tl (cs @ rest)) = CHR ''/''))"
  proof (cases cs)
    case Nil
    with assms(2) show ?thesis by auto
  next
    case (Cons d ds)
    with assms s cs show ?thesis by (cases ds) (auto simp: ordinary_def)
  qed
  from c have e1: "(c = CHR ''/'') = False" by simp
  from dot have e2: "(c = CHR ''.'' \<and> (cs @ rest = [] \<or> hd (cs @ rest) = CHR ''/'')) = False"
    by blast
  from dotdot have e3: "(c = CHR ''.'' \<and> cs @ rest \<noteq> [] \<and> hd (cs @ rest) = CHR ''.''
      \<and> (tl (cs @ rest) = [] \<or> hd (tl (cs @ rest)) = CHR ''/'')) = False"
    by blast
  show ?thesis
    unfolding s append_Cons slash_before_def
    by (simp only: clean_loop.simps e1 e2 e3 if_False until_slash [OF cs assms(2)])
qed

lemma slash_before_again:
  "s \<noteq> [] \<Longrightarrow> slash_before rooted (slash_before rooted out @ s) = slash_before rooted out @ s @ ''/''"
  by (cases s) (auto simp: slash_before_def)

lemma clean_loop_slashed:
  assumes "\<forall>s\<in>set segs. ordinary s"
  shows "clean_loop rooted (slashed segs @ rest) out dotdot =
     clean_loop rooted rest
       (if segs = [] then out else slash_before rooted out @ join_segments segs) dotdot"
  using assms
proof (induction segs arbitrary: out)
  case Nil
  show ?case by (simp add: slashed_def)
next
  case (Cons s segs)
  then have o: "ordinary s" and rest: "\<forall>s\<in>set segs. ordinary s" by simp_all
  from o have ne: "s \<noteq> []" by (simp add: ordinary_def)
  have "clean_loop rooted (slashed (s # segs) @ rest) out dotdot =
      clean_loop rooted (s @ (''/'' @ slashed segs @ rest)) out dotdot"
    by (simp add: slashed_def)
  also have "\<dots> = clean_loop rooted (''/'' @ slashed segs @ rest) (slash_before rooted out @ s) dotdot"
    using clean_loop_ordinary [OF o, of "''/'' @ slashed segs @ rest"] by simp
  also have "\<dots> = clean_loop rooted (slashed segs @ rest) (slash_before rooted out @ s) dotdot"
    by simp
  also have "\<dots> = clean_loop rooted rest
      (if segs = [] then slash_before rooted out @ s
       else slash_before rooted (slash_before rooted out @ s) @ join_segments segs) dotdot"
    by (rule Cons.IH [OF rest])
  also have "(if segs = [] then slash_before rooted out @ s
       else slash_before rooted (slash_before rooted out @ s) @ join_segments segs)
      = slash_before rooted out @ join_segments (s # segs)"
    by (cases segs) (simp_all add: slash_before_again [OF ne])
  finally show ?case by simp
qed

lemma join_segments_last:
  "segs \<noteq> [] \<Longrightarrow> join_segments segs = slashed (butlast segs) @ last segs"
  by (induction segs rule: join_segments.induct) (simp_all add: slashed_def)

lemma join_segments_slashed:
  "segs \<noteq> [] \<Longrightarrow> slashed segs = join_segments segs @ ''/''"
  by (induction segs rule: join_segments.induct) (simp_all add: slashed_def)


lemma slashed_ends:
  "root_prefix rooted @ slashed segs = [] \<or> last (root_prefix rooted @ slashed segs) = CHR ''/''"
  by (induction segs rule: rev_induct) (auto simp: slashed_def root_prefix_def)

lemma path_Split_at_last_slash:
  assumes "CHR ''/'' \<notin> set file" and "d = [] \<or> last d = CHR ''/''"
  shows "path_Split (d @ file) = (d, file)"
proof -
  from assms(2) have "rev d = [] \<or> hd (rev d) = CHR ''/''"
    by (auto simp: hd_rev)
  from until_slash [OF _ this, of "rev file"] assms(1) show ?thesis
    by (simp add: path_Split_def)
qed

lemma path_Clean_slashed:
  assumes "\<forall>s\<in>set segs. ordinary s"
  shows "path_Clean (root_prefix rooted @ slashed segs) = render rooted segs"
proof (cases rooted)
  case True
  from clean_loop_slashed [OF assms, of True "[]" "''/''" 1]
  have "clean_loop True (slashed segs) ''/'' 1 = ''/'' @ join_segments segs"
    by (cases segs) (simp_all add: slash_before_def)
  with True show ?thesis
    by (simp add: path_Clean_def root_prefix_def render_def)
next
  case False
  show ?thesis
  proof (cases segs)
    case Nil
    with False show ?thesis
      by (simp add: path_Clean_def root_prefix_def render_def slashed_def)
  next
    case (Cons s ss)
    with assms have "ordinary s" by simp
    then have hd: "s \<noteq> []" "hd s \<noteq> CHR ''/''"
      by (cases s; auto simp: ordinary_def)+
    from clean_loop_slashed [OF assms, of False "[]" "[]" 0] Cons
    have "clean_loop False (slashed segs) [] 0 = join_segments segs"
      by (simp add: slash_before_def)
    moreover have "join_segments segs \<noteq> []"
      using Cons hd by (cases ss) simp_all
    moreover have "slashed segs \<noteq> []" "hd (slashed segs) \<noteq> CHR ''/''"
      using Cons hd by (simp_all add: slashed_def)
    ultimately show ?thesis using False Cons
      by (simp add: path_Clean_def root_prefix_def render_def)
  qed
qed

lemma render_split:
  "segs \<noteq> [] \<Longrightarrow> render rooted segs = root_prefix rooted @ slashed (butlast segs) @ last segs"
  by (simp add: render_def root_prefix_def join_segments_last)

lemma ordinary_last:
  assumes "\<forall>s\<in>set segs. ordinary s" and "segs \<noteq> []"
  shows "ordinary (last segs)" and "\<forall>s\<in>set (butlast segs). ordinary s"
  using assms by (auto dest: in_set_butlastD)

lemma path_Dir_render:
  assumes "\<forall>s\<in>set segs. ordinary s" and "segs \<noteq> []"
  shows "path_Dir (render rooted segs) = render rooted (butlast segs)"
proof -
  from ordinary_last [OF assms] have l: "CHR ''/'' \<notin> set (last segs)"
    and b: "\<forall>s\<in>set (butlast segs). ordinary s"
    by (simp_all add: ordinary_def)
  have "path_Split (render rooted segs)
      = (root_prefix rooted @ slashed (butlast segs), last segs)"
    using path_Split_at_last_slash [OF l slashed_ends, of rooted "butlast segs"]
    by (simp add: render_split [OF assms(2)])
  with path_Clean_slashed [OF b, of rooted] show ?thesis
    by (simp add: path_Dir_def)
qed

lemma join_segments_nonempty:
  assumes "segs \<noteq> []" and "\<forall>s\<in>set segs. ordinary s"
  shows "join_segments segs \<noteq> []" and "hd (join_segments segs) \<noteq> CHR ''/''"
proof -
  from assms obtain s ss where segs: "segs = s # ss" and o: "ordinary s"
    by (cases segs) auto
  from o obtain c cs where s: "s = c # cs" and c: "c \<noteq> CHR ''/''"
    by (cases s) (auto simp: ordinary_def)
  have "join_segments segs = c # (cs @ (if ss = [] then [] else ''/'' @ join_segments ss))"
    unfolding segs s by (cases ss) simp_all
  with c show "join_segments segs \<noteq> []" and "hd (join_segments segs) \<noteq> CHR ''/''"
    by simp_all
qed

lemma clean_loop_joined:
  assumes "\<forall>s\<in>set segs. ordinary s" and "segs \<noteq> []"
  shows "clean_loop rooted (join_segments segs) out dotdot
      = slash_before rooted out @ join_segments segs"
proof -
  from ordinary_last [OF assms] have l: "ordinary (last segs)"
    and b: "\<forall>s\<in>set (butlast segs). ordinary s"
    by simp_all
  have "clean_loop rooted (slashed (butlast segs) @ last segs) out dotdot
      = clean_loop rooted (last segs @ [])
          (if butlast segs = [] then out
           else slash_before rooted out @ join_segments (butlast segs)) dotdot"
    using clean_loop_slashed [OF b, of rooted "last segs" out dotdot] by simp
  also have "\<dots> = slash_before rooted
          (if butlast segs = [] then out
           else slash_before rooted out @ join_segments (butlast segs)) @ last segs"
    by (subst clean_loop_ordinary [OF l]) simp_all
  also have "\<dots> = slash_before rooted out @ join_segments segs"
  proof (cases "butlast segs = []")
    case True
    then show ?thesis
      by (simp add: join_segments_last [OF assms(2)] slashed_def)
  next
    case nb: False
    from slash_before_again [OF join_segments_nonempty(1) [OF nb b], of rooted out]
    show ?thesis
      by (simp add: nb join_segments_last [OF assms(2)] join_segments_slashed [OF nb])
  qed
  finally show ?thesis
    by (simp add: join_segments_last [OF assms(2)])
qed


lemma path_Clean_render:
  assumes "\<forall>s\<in>set segs. ordinary s"
  shows "path_Clean (render rooted segs) = render rooted segs"
proof (cases "segs = []")
  case True
  then show ?thesis
    by (cases rooted) (simp_all add: render_def path_Clean_def)
next
  case False
  note ne = join_segments_nonempty [OF False assms]
  show ?thesis
  proof (cases rooted)
    case True
    have "path_Clean (''/'' @ join_segments segs)
        = clean_loop True (join_segments segs) ''/'' 1"
      using clean_loop_joined [OF assms False, of True "''/''" 1]
      by (simp add: path_Clean_def slash_before_def)
    with True clean_loop_joined [OF assms False, of True "''/''" 1] show ?thesis
      by (simp add: render_def slash_before_def)
  next
    case nr: False
    from ne have "path_Clean (join_segments segs) = clean_loop False (join_segments segs) [] 0"
      using clean_loop_joined [OF assms False, of False "[]" 0]
      by (simp add: path_Clean_def slash_before_def)
    with nr False clean_loop_joined [OF assms False, of False "[]" 0] show ?thesis
      by (simp add: render_def slash_before_def)
  qed
qed


lemma path_Base_render:
  assumes "\<forall>s\<in>set segs. ordinary s"
  shows "path_Base (render rooted segs)
      = (if segs = [] then (if rooted then ''/'' else ''.'') else last segs)"
proof (cases "segs = []")
  case True
  then show ?thesis
    by (cases rooted) (simp_all add: render_def path_Base_def)
next
  case False
  from ordinary_last [OF assms False] have l: "CHR ''/'' \<notin> set (last segs)" and ne: "last segs \<noteq> []"
    by (simp_all add: ordinary_def)
  let ?p = "render rooted segs"
  have split: "path_Split ?p = (root_prefix rooted @ slashed (butlast segs), last segs)"
    using path_Split_at_last_slash [OF l slashed_ends, of rooted "butlast segs"]
    by (simp add: render_split [OF False])
  have p: "?p \<noteq> []" and "last ?p = last (last segs)"
    using ne by (simp_all add: render_split [OF False])
  with l ne have "hd (rev ?p) \<noteq> CHR ''/''"
    by (metis hd_rev last_in_set)
  with p have strip: "dropWhile (\<lambda>c. c = CHR ''/'') (rev ?p) = rev ?p"
    by (cases "rev ?p") simp_all
  from split have "rev (takeWhile (\<lambda>c. c \<noteq> CHR ''/'') (rev ?p)) = last segs"
    by (simp add: path_Split_def)
  with p strip ne False show ?thesis
    by (auto simp: path_Base_def Let_def)
qed

lemma resourceDir_segments:
  assumes "\<forall>s\<in>set segs. ordinary s" and "CHR ''/'' \<notin> set file"
  shows "resourceDir (root_prefix rooted @ slashed segs @ file)
      = render rooted (if segs \<noteq> [] \<and> last segs = ''functions'' then butlast segs else segs)"
proof -
  have "path_Split ((root_prefix rooted @ slashed segs) @ file) = (root_prefix rooted @ slashed segs, file)"
    by (rule path_Split_at_last_slash [OF assms(2) slashed_ends])
  then have dir: "path_Dir (root_prefix rooted @ slashed segs @ file) = render rooted segs"
    by (simp add: path_Dir_def path_Clean_slashed [OF assms(1)])
  show ?thesis
  proof (cases "segs \<noteq> [] \<and> last segs = ''functions''")
    case True
    then have "path_Base (render rooted segs) = functionsDirectoryName"
      by (simp add: path_Base_render [OF assms(1)] functionsDirectoryName_def)
    with True path_Dir_render [OF assms(1), of rooted] show ?thesis
      by (simp add: resourceDir_def rewriteForReservedDir_def dir path_Clean_render [OF assms(1)])
  next
    case False
    then have "path_Base (render rooted segs) \<noteq> functionsDirectoryName"
      by (auto simp: path_Base_render [OF assms(1)] functionsDirectoryName_def)
    with False show ?thesis
      by (auto simp: resourceDir_def rewriteForReservedDir_def dir path_Clean_render [OF assms(1)])
  qed
qed

lemma resourceDir_segments_example:
  "resourceDir ''dir/functions/fn.yaml'' = ''dir''"
  using resourceDir_segments [of "[''dir'', ''functions'']" "''fn.yaml''" False]
  by (simp add: ordinary_def render_def root_prefix_def slashed_def)

subsection \<open>The containment test is a raw string prefix\<close>

text \<open>
  \<^verbatim>\<open>strings.HasPrefix\<close> is the prefix order on strings. So one half of the
  segment-aware rule holds: a resource whose resolved directory is the scope directory
  or below it is in scope, and no resource that is held back lies below the scope
  directory.
\<close>

lemma strings_HasPrefix_prefix: "strings_HasPrefix s p \<longleftrightarrow> prefix p s"
  by (induction s p rule: strings_HasPrefix.induct) auto

lemma segmentScoped_HasPrefix:
  "segmentScoped dir d \<Longrightarrow> strings_HasPrefix d dir"
  by (auto simp: segmentScoped_def strings_HasPrefix_prefix prefix_def split: if_splits)

lemma scope_descendant_in_scope:
  assumes "\<not> GlobalScope c" and "dir \<noteq> []" and "dir \<noteq> ''.''"
    and "scope c dir nodes = Inr (input, saved)"
    and "n \<in> set nodes" and "GetMeta n = Inr m" and "Annotations m PathAnnotation = Some p"
    and "segmentScoped dir (resourceDir p)"
  shows "n \<in> set input \<and> n \<notin> set saved"
proof -
  from assms(1-4) have loop: "scope_loop dir nodes [] [] = Inr (input, saved)"
    by (simp add: scope_def)
  from assms(6-8) have "inScope dir n"
    by (simp add: inScope_def segmentScoped_HasPrefix)
  with assms(5) scope_loop_Inr [OF loop] show ?thesis by simp
qed

lemma scope_out_of_scope_not_descendant:
  assumes "\<not> GlobalScope c" and "dir \<noteq> []" and "dir \<noteq> ''.''"
    and "scope c dir nodes = Inr (input, saved)"
    and "n \<in> set saved" and "GetMeta n = Inr m" and "Annotations m PathAnnotation = Some p"
  shows "\<not> segmentScoped dir (resourceDir p)"
proof
  assume "segmentScoped dir (resourceDir p)"
  from assms(1-4) have loop: "scope_loop dir nodes [] [] = Inr (input, saved)"
    by (simp add: scope_def)
  from assms(5) scope_loop_Inr(2) [OF loop] have "n \<in> set nodes" by simp
  from scope_descendant_in_scope [OF assms(1-4) this assms(6,7)] \<open>segmentScoped dir (resourceDir p)\<close>
    assms(5) show False by simp
qed

text \<open>
  Claim C1 says that a resource is in scope if and only if its resolved directory is
  the scope directory or a path-segment descendant of it, so that a sibling directory
  that only shares a string prefix is out of scope. The other half fails on the code:
  for a function at \<^verbatim>\<open>apps/fn.yaml\<close>, whose scope is \<^verbatim>\<open>apps\<close>, a resource read from
  \<^verbatim>\<open>apps2/deployment.yaml\<close> resolves to the directory \<^verbatim>\<open>apps2\<close>, which is neither
  \<^verbatim>\<open>apps\<close> nor below it, and the partition places it in scope.
\<close>

theorem scope_prefix_sibling_in_scope:
  "getFunctionScope (filter_at ''apps/fn.yaml'' False False) = Inr ''apps''
   \<and> resourceDir ''apps2/deployment.yaml'' = ''apps2''
   \<and> \<not> segmentScoped ''apps'' ''apps2''
   \<and> scope (filter_at ''apps/fn.yaml'' False False) ''apps''
        [resource_at ''Deployment'' ''foo'' ''apps2/deployment.yaml'']
      = Inr ([resource_at ''Deployment'' ''foo'' ''apps2/deployment.yaml''], [])"
  by (simp add: getFunctionScope_def scope_def filter_at_def resource_at_def resourceDir_def
      rewriteForReservedDir_def segmentScoped_def path_defs)

subsection \<open>Resources of unknown provenance\<close>

text \<open>
  Claim C2. For every input collection and every scope directory that is neither empty
  nor the root \<^verbatim>\<open>.\<close>, with \<open>GlobalScope\<close> unset: when the partition succeeds, every
  resource of the input that has no origin-path annotation is in the out-of-scope
  bucket \<open>saved\<close> and not in the in-scope bucket \<open>input\<close>.
\<close>

theorem scope_unannotated_out_of_scope:
  assumes "\<not> GlobalScope c" and "dir \<noteq> []" and "dir \<noteq> ''.''"
    and "scope c dir nodes = Inr (input, saved)"
    and "n \<in> set nodes" and "GetMeta n = Inr m" and "Annotations m PathAnnotation = None"
  shows "n \<in> set saved \<and> n \<notin> set input"
proof -
  from assms(1-4) have loop: "scope_loop dir nodes [] [] = Inr (input, saved)"
    by (simp add: scope_def)
  from assms(6,7) have "\<not> inScope dir n"
    by (simp add: inScope_def)
  with assms(5) scope_loop_Inr [OF loop] show ?thesis by simp
qed

theorem scope_unannotated_out_of_scope_witness:
  "resource_new ''Foo'' ''bar''
     \<in> set [resource_new ''Foo'' ''bar'', resource_at ''C'' ''c'' ''other/c.yaml'']
   \<and> resource_new ''Foo'' ''bar''
     \<notin> set [resource_at ''A'' ''a'' ''dir/a.yaml'', resource_at ''B'' ''b'' ''dir/sub/b.yaml'']"
proof -
  have g: "\<not> GlobalScope (filter_at ''dir/fn.yaml'' False False)"
    by (simp add: filter_at_def)
  have m: "GetMeta (resource_new ''Foo'' ''bar'')
      = Inr \<lparr>Kind = ''Foo'', Name = ''bar'', Namespace = [], Annotations = Map.empty\<rparr>"
    by (simp add: resource_new_def)
  show ?thesis
    by (rule scope_unannotated_out_of_scope [OF g _ _ scope_example_dir _ m]) simp_all
qed

subsection \<open>Global scope\<close>

text \<open>
  Claim C3. For every input collection and every scope directory: if the filter's
  \<open>GlobalScope\<close> flag is set, or the scope directory is empty or the root \<^verbatim>\<open>.\<close>, the
  partition returns the whole input as the in-scope bucket and an empty out-of-scope
  bucket, with no error, whatever the resources' annotations are (their metadata is not
  even read).
\<close>

theorem scope_global_all_in_scope:
  "GlobalScope c \<or> dir = [] \<or> dir = ''.'' \<Longrightarrow> scope c dir nodes = Inr (nodes, [])"
  by (auto simp: scope_def)

theorem scope_global_all_in_scope_witness:
  "scope (filter_at ''dir/fn.yaml'' True False) ''dir''
       [resource_at ''A'' ''a'' ''other/a.yaml'', resource_new ''Foo'' ''bar'', resource_broken]
     = Inr ([resource_at ''A'' ''a'' ''other/a.yaml'', resource_new ''Foo'' ''bar'', resource_broken], [])
   \<and> scope (filter_at ''fn.yaml'' False False) ''.'' [resource_at ''A'' ''a'' ''other/a.yaml'']
     = Inr ([resource_at ''A'' ''a'' ''other/a.yaml''], [])
   \<and> scope (filter_at ''fn.yaml'' False False) [] [resource_new ''Foo'' ''bar'']
     = Inr ([resource_new ''Foo'' ''bar''], [])"
  using scope_global_all_in_scope [of "filter_at ''dir/fn.yaml'' True False" "''dir''"]
    scope_global_all_in_scope [of "filter_at ''fn.yaml'' False False" "''.''"]
    scope_global_all_in_scope [of "filter_at ''fn.yaml'' False False" "[]"]
  by (simp add: filter_at_def)

subsection \<open>Scope resolution and the reserved directory name\<close>

text \<open>
  With readable metadata, \<^verbatim>\<open>getFunctionScope\<close> is the empty scope or the directory
  the origin path resolves to.
\<close>

lemma getFunctionScope_rewrite:
  assumes "GetMeta (Config c) = Inr m"
  shows "getFunctionScope c =
     Inr (case Annotations m PathAnnotation of None \<Rightarrow> [] | Some p \<Rightarrow> resourceDir p)"
  using assms
  by (simp add: getFunctionScope_def resourceDir_def rewriteForReservedDir_def Let_def
      split: option.splits)

text \<open>
  Claim C4. For every function configuration whose metadata can be read: with no
  origin-path annotation, \<^verbatim>\<open>getFunctionScope\<close> returns the empty scope and no error;
  with the annotation \<open>p\<close> it returns the cleaned directory of \<open>p\<close>, except that it
  returns that directory's parent (\<^verbatim>\<open>path.Dir\<close>) when the directory's final segment
  (\<^verbatim>\<open>path.Base\<close>) is the reserved name \<^verbatim>\<open>functions\<close>. By segments: for a file in the
  directory with the ordinary segments \<open>segs\<close>, the scope is that directory, or the
  directory without its last segment when that segment is \<^verbatim>\<open>functions\<close>. The partition
  applies the same rewrite to the directory of each resource before it tests the
  resource against the scope directory.
\<close>

theorem getFunctionScope_resolution:
  assumes "GetMeta (Config c) = Inr m"
  shows "(Annotations m PathAnnotation = None \<longrightarrow> getFunctionScope c = Inr [])
       \<and> (\<forall>p. Annotations m PathAnnotation = Some p \<longrightarrow>
            getFunctionScope c = Inr (rewriteForReservedDir (path_Clean (path_Dir p)))
          \<and> (path_Base (path_Clean (path_Dir p)) \<noteq> ''functions'' \<longrightarrow>
               rewriteForReservedDir (path_Clean (path_Dir p)) = path_Clean (path_Dir p))
          \<and> (path_Base (path_Clean (path_Dir p)) = ''functions'' \<longrightarrow>
               rewriteForReservedDir (path_Clean (path_Dir p)) = path_Dir (path_Clean (path_Dir p))))
       \<and> (\<forall>rooted segs fname.
            (\<forall>s\<in>set segs. ordinary s) \<and> CHR ''/'' \<notin> set fname
            \<and> Annotations m PathAnnotation = Some (root_prefix rooted @ slashed segs @ fname) \<longrightarrow>
            getFunctionScope c =
              Inr (render rooted
                    (if segs \<noteq> [] \<and> last segs = ''functions'' then butlast segs else segs)))
       \<and> (\<forall>dir nodes input saved n mn p.
            \<not> GlobalScope c \<and> dir \<noteq> [] \<and> dir \<noteq> ''.''
            \<and> scope c dir nodes = Inr (input, saved)
            \<and> n \<in> set nodes \<and> GetMeta n = Inr mn \<and> Annotations mn PathAnnotation = Some p \<longrightarrow>
            (n \<in> set input \<longleftrightarrow>
               strings_HasPrefix (rewriteForReservedDir (path_Clean (path_Dir p))) dir)
          \<and> (n \<in> set saved \<longleftrightarrow>
               \<not> strings_HasPrefix (rewriteForReservedDir (path_Clean (path_Dir p))) dir))"
proof (intro conjI allI impI)
  assume "Annotations m PathAnnotation = None"
  with getFunctionScope_rewrite [OF assms] show "getFunctionScope c = Inr []" by simp
next
  fix p assume "Annotations m PathAnnotation = Some p"
  with getFunctionScope_rewrite [OF assms]
  show "getFunctionScope c = Inr (rewriteForReservedDir (path_Clean (path_Dir p)))"
    by (simp add: resourceDir_def)
next
  fix p assume "path_Base (path_Clean (path_Dir p)) \<noteq> ''functions''"
  then show "rewriteForReservedDir (path_Clean (path_Dir p)) = path_Clean (path_Dir p)"
    by (simp add: rewriteForReservedDir_def functionsDirectoryName_def)
next
  fix p assume "path_Base (path_Clean (path_Dir p)) = ''functions''"
  then show "rewriteForReservedDir (path_Clean (path_Dir p)) = path_Dir (path_Clean (path_Dir p))"
    by (simp add: rewriteForReservedDir_def functionsDirectoryName_def)
next
  fix rooted segs fname
  assume a: "(\<forall>s\<in>set segs. ordinary s) \<and> CHR ''/'' \<notin> set fname
            \<and> Annotations m PathAnnotation = Some (root_prefix rooted @ slashed segs @ fname)"
  then have "resourceDir (root_prefix rooted @ slashed segs @ fname)
      = render rooted (if segs \<noteq> [] \<and> last segs = ''functions'' then butlast segs else segs)"
    using resourceDir_segments [of segs fname rooted] by blast
  with a getFunctionScope_rewrite [OF assms]
  show "getFunctionScope c =
      Inr (render rooted (if segs \<noteq> [] \<and> last segs = ''functions'' then butlast segs else segs))"
    by simp
next
  fix dir nodes input saved n mn p
  assume a: "\<not> GlobalScope c \<and> dir \<noteq> [] \<and> dir \<noteq> ''.''
            \<and> scope c dir nodes = Inr (input, saved)
            \<and> n \<in> set nodes \<and> GetMeta n = Inr mn \<and> Annotations mn PathAnnotation = Some p"
  then have loop: "scope_loop dir nodes [] [] = Inr (input, saved)"
    by (auto simp: scope_def)
  from a have "inScope dir n \<longleftrightarrow> strings_HasPrefix (rewriteForReservedDir (path_Clean (path_Dir p))) dir"
    by (simp add: inScope_def resourceDir_def)
  with a scope_loop_Inr [OF loop]
  show "n \<in> set input \<longleftrightarrow> strings_HasPrefix (rewriteForReservedDir (path_Clean (path_Dir p))) dir"
    and "n \<in> set saved \<longleftrightarrow> \<not> strings_HasPrefix (rewriteForReservedDir (path_Clean (path_Dir p))) dir"
    by simp_all
qed

theorem getFunctionScope_resolution_witness:
  "getFunctionScope ((filter_at [] False False)\<lparr>Config := resource_new ''Fn'' ''fn''\<rparr>) = Inr []
   \<and> getFunctionScope (filter_at ''dir/stuff/fn.yaml'' False False) = Inr ''dir/stuff''
   \<and> getFunctionScope (filter_at ''dir/functions/fn.yaml'' False False) = Inr ''dir''
   \<and> getFunctionScope (filter_at ''functions/fn.yaml'' False False) = Inr ''.''
   \<and> getFunctionScope (filter_at (root_prefix True @ slashed [''etc'', ''functions''] @ ''fn.yaml'')
        False False) = Inr ''/etc''
   \<and> strings_HasPrefix (rewriteForReservedDir (path_Clean (path_Dir ''dir/functions/b.yaml''))) ''dir''
   \<and> \<not> strings_HasPrefix
         (rewriteForReservedDir (path_Clean (path_Dir ''other/functions/c.yaml''))) ''dir''"
proof -
  have m0: "GetMeta (Config ((filter_at [] False False)\<lparr>Config := resource_new ''Fn'' ''fn''\<rparr>))
      = Inr \<lparr>Kind = ''Fn'', Name = ''fn'', Namespace = [], Annotations = Map.empty\<rparr>"
    by (simp add: resource_new_def)
  have m: "\<And>p. GetMeta (Config (filter_at p False False))
      = Inr \<lparr>Kind = ''Fn'', Name = ''fn'', Namespace = [], Annotations = [PathAnnotation \<mapsto> p]\<rparr>"
    by (simp add: filter_at_def resource_at_def)
  have r: "rewriteForReservedDir (path_Clean (path_Dir ''dir/stuff/fn.yaml'')) = ''dir/stuff''"
    "rewriteForReservedDir (path_Clean (path_Dir ''dir/functions/fn.yaml'')) = ''dir''"
    "rewriteForReservedDir (path_Clean (path_Dir ''functions/fn.yaml'')) = ''.''"
    by (simp_all add: rewriteForReservedDir_def path_defs)
  have w1: "getFunctionScope ((filter_at [] False False)\<lparr>Config := resource_new ''Fn'' ''fn''\<rparr>) = Inr []"
    using getFunctionScope_resolution [OF m0, THEN conjunct1] by simp
  note fn = getFunctionScope_resolution [OF m, THEN conjunct2, THEN conjunct1, rule_format,
      THEN conjunct1]
  have w2: "getFunctionScope (filter_at ''dir/stuff/fn.yaml'' False False) = Inr ''dir/stuff''"
    using fn [of "''dir/stuff/fn.yaml''"] by (simp add: r)
  have w3: "getFunctionScope (filter_at ''dir/functions/fn.yaml'' False False) = Inr ''dir''"
    using fn [of "''dir/functions/fn.yaml''"] by (simp add: r)
  have w4: "getFunctionScope (filter_at ''functions/fn.yaml'' False False) = Inr ''.''"
    using fn [of "''functions/fn.yaml''"] by (simp add: r)
  have seg: "(\<forall>s\<in>set [''etc'', ''functions'']. ordinary s) \<and> CHR ''/'' \<notin> set ''fn.yaml''
      \<and> [PathAnnotation \<mapsto> root_prefix True @ slashed [''etc'', ''functions''] @ ''fn.yaml''] PathAnnotation
          = Some (root_prefix True @ slashed [''etc'', ''functions''] @ ''fn.yaml'')"
    by (simp add: ordinary_def)
  have w5: "getFunctionScope (filter_at (root_prefix True @ slashed [''etc'', ''functions''] @ ''fn.yaml'')
        False False) = Inr ''/etc''"
    using getFunctionScope_resolution [OF m, THEN conjunct2, THEN conjunct2, THEN conjunct1,
      rule_format, where segs = "[''etc'', ''functions'']" and rooted = True
        and fname = "''fn.yaml''"] seg
    by (simp add: render_def)
  let ?b = "resource_at ''B'' ''b'' ''dir/functions/b.yaml''"
  let ?c = "resource_at ''C'' ''c'' ''other/functions/c.yaml''"
  have s: "scope (filter_at ''dir/fn.yaml'' False False) ''dir'' [?b, ?c] = Inr ([?b], [?c])"
    by (simp add: scope_def filter_at_def resource_at_def path_defs)
  have pre: "\<And>n mn p. n \<in> set [?b, ?c] \<Longrightarrow> GetMeta n = Inr mn \<Longrightarrow>
      Annotations mn PathAnnotation = Some p \<Longrightarrow>
      \<not> GlobalScope (filter_at ''dir/fn.yaml'' False False) \<and> ''dir'' \<noteq> [] \<and> ''dir'' \<noteq> ''.''
      \<and> scope (filter_at ''dir/fn.yaml'' False False) ''dir'' [?b, ?c] = Inr ([?b], [?c])
      \<and> n \<in> set [?b, ?c] \<and> GetMeta n = Inr mn \<and> Annotations mn PathAnnotation = Some p"
    using s by (simp add: filter_at_def)
  note part = getFunctionScope_resolution [OF m, THEN conjunct2, THEN conjunct2, THEN conjunct2,
      rule_format, OF pre]
  have mb: "GetMeta ?b = Inr \<lparr>Kind = ''B'', Name = ''b'', Namespace = [],
      Annotations = [PathAnnotation \<mapsto> ''dir/functions/b.yaml'']\<rparr>"
    and mc: "GetMeta ?c = Inr \<lparr>Kind = ''C'', Name = ''c'', Namespace = [],
      Annotations = [PathAnnotation \<mapsto> ''other/functions/c.yaml'']\<rparr>"
    by (simp_all add: resource_at_def)
  have w6: "strings_HasPrefix
      (rewriteForReservedDir (path_Clean (path_Dir ''dir/functions/b.yaml''))) ''dir''"
    using part [OF _ mb, of "''dir/functions/b.yaml''", THEN conjunct1] by simp
  have w7: "\<not> strings_HasPrefix
      (rewriteForReservedDir (path_Clean (path_Dir ''other/functions/c.yaml''))) ''dir''"
    using part [OF _ mc, of "''other/functions/c.yaml''", THEN conjunct2] by simp
  from w1 w2 w3 w4 w5 w6 w7 show ?thesis by blast
qed

subsection \<open>The partition is strict and the held-back resources come last\<close>

text \<open>
  Claim C5. For every input collection, a successful partition is a strict partition:
  the two buckets together hold exactly the input resources, as often as the input
  does, no resource is in both, and each bucket keeps the relative order of the input.
  Whenever \<^verbatim>\<open>Filter\<close> returns resources at all, the returned collection is the
  function's decoded output (as provenance defaulting leaves it on the regular path)
  followed by the whole out-of-scope bucket as one block; otherwise it returns no
  resource and an error.
\<close>

theorem scope_partition_and_append:
  assumes "getFunctionScope c = Inr functionDir"
    and "scope c functionDir nodes = Inr (input, saved)"
  shows "mset input + mset saved = mset nodes
       \<and> set input \<inter> set saved = {}
       \<and> subseq input nodes \<and> subseq saved nodes
       \<and> (\<forall>env c' res err. Filter env c nodes = (c', res, err) \<longrightarrow>
            (res = [] \<and> err \<noteq> None)
          \<or> (\<exists>stdin exit stdout output results.
                Write env (Config c) input = Inr stdin \<and> Run env c stdin = (exit, stdout)
              \<and> Read env stdout = Inr (output, results)
              \<and> ((res = output @ saved \<and> err = exit \<and> exit \<noteq> None \<and> \<not> DeferFailure c)
                 \<or> (\<exists>output'. DefaultPathAnnotation env functionDir output = Inr output'
                       \<and> res = output' @ saved \<and> err = None))))"
proof -
  from scope_Inr_filter [OF assms(2)] obtain P
    where i: "input = filter P nodes" and s: "saved = filter (\<lambda>n. \<not> P n) nodes"
    by blast
  have "mset input + mset saved = mset nodes"
    unfolding i s by (rule filter_partition_mset)
  moreover have "set input \<inter> set saved = {}"
    unfolding i s by auto
  moreover have "subseq input nodes" and "subseq saved nodes"
    unfolding i s by simp_all
  ultimately show ?thesis
    using Filter_result_cases [OF assms] by blast
qed


theorem scope_partition_and_append_witness:
  "mset [resource_at ''A'' ''a'' ''dir/a.yaml'', resource_at ''B'' ''b'' ''dir/sub/b.yaml'']
     + mset [resource_new ''Foo'' ''bar'', resource_at ''C'' ''c'' ''other/c.yaml'']
     = mset [resource_at ''A'' ''a'' ''dir/a.yaml'', resource_new ''Foo'' ''bar'',
             resource_at ''B'' ''b'' ''dir/sub/b.yaml'', resource_at ''C'' ''c'' ''other/c.yaml'']
   \<and> set [resource_at ''A'' ''a'' ''dir/a.yaml'', resource_at ''B'' ''b'' ''dir/sub/b.yaml'']
     \<inter> set [resource_new ''Foo'' ''bar'', resource_at ''C'' ''c'' ''other/c.yaml''] = {}
   \<and> subseq [resource_at ''A'' ''a'' ''dir/a.yaml'', resource_at ''B'' ''b'' ''dir/sub/b.yaml'']
        [resource_at ''A'' ''a'' ''dir/a.yaml'', resource_new ''Foo'' ''bar'',
         resource_at ''B'' ''b'' ''dir/sub/b.yaml'', resource_at ''C'' ''c'' ''other/c.yaml'']
   \<and> subseq [resource_new ''Foo'' ''bar'', resource_at ''C'' ''c'' ''other/c.yaml'']
        [resource_at ''A'' ''a'' ''dir/a.yaml'', resource_new ''Foo'' ''bar'',
         resource_at ''B'' ''b'' ''dir/sub/b.yaml'', resource_at ''C'' ''c'' ''other/c.yaml'']
   \<and> (\<exists>out. fst (snd (Filter
          (process None [resource_at ''A'' ''a'' ''dir/a.yaml'',
                         resource_at ''B'' ''b'' ''dir/sub/b.yaml'', resource_new ''Foo'' ''bar''])
          (filter_at ''dir/fn.yaml'' False False)
          [resource_at ''A'' ''a'' ''dir/a.yaml'', resource_new ''Foo'' ''bar'',
           resource_at ''B'' ''b'' ''dir/sub/b.yaml'', resource_at ''C'' ''c'' ''other/c.yaml'']))
        = out @ [resource_new ''Foo'' ''bar'', resource_at ''C'' ''c'' ''other/c.yaml''])"
proof -
  note t = scope_partition_and_append [OF getFunctionScope_example_dir scope_example_dir]
  from t have "\<forall>env c' res err.
      Filter env (filter_at ''dir/fn.yaml'' False False)
        [resource_at ''A'' ''a'' ''dir/a.yaml'', resource_new ''Foo'' ''bar'',
         resource_at ''B'' ''b'' ''dir/sub/b.yaml'', resource_at ''C'' ''c'' ''other/c.yaml'']
        = (c', res, err) \<longrightarrow>
      (res = [] \<and> err \<noteq> None)
      \<or> (\<exists>out. res = out @ [resource_new ''Foo'' ''bar'', resource_at ''C'' ''c'' ''other/c.yaml''])"
    by blast
  from this [rule_format, OF Filter_example_dir]
  have "\<exists>out. fst (snd (Filter
          (process None [resource_at ''A'' ''a'' ''dir/a.yaml'',
                         resource_at ''B'' ''b'' ''dir/sub/b.yaml'', resource_new ''Foo'' ''bar''])
          (filter_at ''dir/fn.yaml'' False False)
          [resource_at ''A'' ''a'' ''dir/a.yaml'', resource_new ''Foo'' ''bar'',
           resource_at ''B'' ''b'' ''dir/sub/b.yaml'', resource_at ''C'' ''c'' ''other/c.yaml'']))
        = out @ [resource_new ''Foo'' ''bar'', resource_at ''C'' ''c'' ''other/c.yaml'']"
    by (simp add: Filter_example_dir)
  with t show ?thesis by blast
qed

subsection \<open>Provenance defaulting keeps an origin path that is set\<close>

text \<open>
  The loop of provenance defaulting relates each resource to its result: a resource
  with an origin path is returned as it is, a resource without one gets the default
  path and an index. It returns a result whenever all metadata can be read.
\<close>

lemma assign_loop_rel:
  "assign_loop synth counts nodes = Inr nodes' \<Longrightarrow>
     list_all2 (\<lambda>n n'. \<exists>m. GetMeta n = Inr m \<and>
        (case Annotations m PathAnnotation of
           Some p \<Rightarrow> n' = n
         | None \<Rightarrow> (\<exists>idx. n' = n\<lparr>GetMeta := Inr (m\<lparr>Annotations :=
              (Annotations m)(PathAnnotation \<mapsto> synth m, IndexAnnotation \<mapsto> idx)\<rparr>)\<rparr>)))
       nodes nodes'"
proof (induction nodes arbitrary: counts nodes')
  case Nil
  then show ?case by simp
next
  case (Cons n nodes)
  from Cons.prems obtain m where m: "GetMeta n = Inr m"
    by (cases "GetMeta n") auto
  show ?case
  proof (cases "Annotations m PathAnnotation")
    case None
    let ?n' = "n\<lparr>GetMeta := Inr (m\<lparr>Annotations :=
        (Annotations m)(PathAnnotation \<mapsto> synth m,
                        IndexAnnotation \<mapsto> decimal (counts (synth m)))\<rparr>)\<rparr>"
    from Cons.prems m None obtain rest
      where r: "assign_loop synth (counts(synth m := Suc (counts (synth m)))) nodes = Inr rest"
        and n': "nodes' = ?n' # rest"
      by (auto simp: Let_def simp del: fun_upd_apply split: sum.splits)
    have "\<exists>idx. ?n' = n\<lparr>GetMeta := Inr (m\<lparr>Annotations :=
        (Annotations m)(PathAnnotation \<mapsto> synth m, IndexAnnotation \<mapsto> idx)\<rparr>)\<rparr>"
      by (rule exI [of _ "decimal (counts (synth m))"]) (rule refl)
    with Cons.IH [OF r] m None show ?thesis
      unfolding n' by (simp del: fun_upd_apply)
  next
    case (Some p)
    from Cons.prems m Some obtain rest
      where r: "assign_loop synth counts nodes = Inr rest" and n': "nodes' = n # rest"
      by (auto split: sum.splits)
    with Cons.IH [OF r] m Some show ?thesis by simp
  qed
qed

lemma assign_loop_total:
  "(\<forall>n\<in>set nodes. \<exists>m. GetMeta n = Inr m) \<Longrightarrow> \<exists>nodes'. assign_loop synth counts nodes = Inr nodes'"
proof (induction nodes arbitrary: counts)
  case Nil
  then show ?case by simp
next
  case (Cons n nodes)
  then obtain m where m: "GetMeta n = Inr m" by auto
  from Cons.prems have rest: "\<forall>n\<in>set nodes. \<exists>m. GetMeta n = Inr m" by simp
  show ?case
  proof (cases "Annotations m PathAnnotation")
    case None
    from Cons.IH [OF rest, of "counts(synth m := Suc (counts (synth m)))"]
    obtain nodes' where "assign_loop synth (counts(synth m := Suc (counts (synth m)))) nodes = Inr nodes'"
      by blast
    with m None show ?thesis by (simp add: Let_def)
  next
    case (Some p)
    from Cons.IH [OF rest, of counts]
    obtain nodes' where "assign_loop synth counts nodes = Inr nodes'" by blast
    with m Some show ?thesis by simp
  qed
qed

text \<open>
  Claim C6. For every collection the function emitted: when provenance defaulting
  succeeds, it returns as many resources, position by position; a resource that
  already carries an origin-path annotation is returned unchanged, annotation and
  all, and only a resource that lacks the annotation gets the default path and an
  index, and nothing else of it changes.
\<close>

theorem assignDefaults_keeps_origin_path:
  assumes "assignDefaults stem normalise dir nodes = Inr nodes'"
  shows "length nodes' = length nodes
       \<and> (\<forall>i<length nodes. \<exists>m. GetMeta (nodes ! i) = Inr m \<and>
            (case Annotations m PathAnnotation of
               Some p \<Rightarrow> nodes' ! i = nodes ! i
             | None \<Rightarrow> (\<exists>idx. nodes' ! i = (nodes ! i)\<lparr>GetMeta := Inr (m\<lparr>Annotations :=
                  (Annotations m)(PathAnnotation \<mapsto> default_path stem normalise dir m,
                                  IndexAnnotation \<mapsto> idx)\<rparr>)\<rparr>)))"
  using assign_loop_rel [OF assms [unfolded assignDefaults_def]]
  by (simp add: list_all2_conv_all_nth)

theorem assignDefaults_keeps_origin_path_witness:
  "\<exists>nodes'. assignDefaults ''fn'' (\<lambda>c. CHR ''_'') ''dir''
       [resource_at ''A'' ''a'' ''dir/a.yaml'', resource_at ''B'' ''b'' ''dir/sub/b.yaml'',
        resource_new ''Foo'' ''bar''] = Inr nodes'
     \<and> length nodes' = 3
     \<and> nodes' ! 0 = resource_at ''A'' ''a'' ''dir/a.yaml''
     \<and> nodes' ! 1 = resource_at ''B'' ''b'' ''dir/sub/b.yaml''
     \<and> (\<exists>idx. nodes' ! 2 = (resource_new ''Foo'' ''bar'')\<lparr>GetMeta :=
            Inr \<lparr>Kind = ''Foo'', Name = ''bar'', Namespace = [],
                 Annotations = [PathAnnotation \<mapsto> ''dir/fn/foo_bar.yaml'', IndexAnnotation \<mapsto> idx]\<rparr>\<rparr>)"
proof -
  let ?nodes = "[resource_at ''A'' ''a'' ''dir/a.yaml'', resource_at ''B'' ''b'' ''dir/sub/b.yaml'',
        resource_new ''Foo'' ''bar'']"
  from assignDefaults_example obtain nodes'
    where r: "assignDefaults ''fn'' (\<lambda>c. CHR ''_'') ''dir'' ?nodes = Inr nodes'"
    by blast
  note t = assignDefaults_keeps_origin_path [OF r]
  from t have len: "length nodes' = 3" by simp
  note each = t [THEN conjunct2, rule_format]
  have n0: "nodes' ! 0 = resource_at ''A'' ''a'' ''dir/a.yaml''"
    using each [of 0] by (auto simp: resource_at_def)
  have n1: "nodes' ! 1 = resource_at ''B'' ''b'' ''dir/sub/b.yaml''"
    using each [of 1] by (auto simp: resource_at_def)
  have n2: "\<exists>idx. nodes' ! 2 = (resource_new ''Foo'' ''bar'')\<lparr>GetMeta :=
            Inr \<lparr>Kind = ''Foo'', Name = ''bar'', Namespace = [],
                 Annotations = [PathAnnotation \<mapsto> ''dir/fn/foo_bar.yaml'', IndexAnnotation \<mapsto> idx]\<rparr>\<rparr>"
    using each [of 2] by (auto simp: resource_new_def default_path_example)
  from r len n0 n1 n2 show ?thesis by blast
qed

subsection \<open>A process that exits non-zero\<close>

text \<open>
  Claim C7 as stated says that, whenever the process exits non-zero, \<^verbatim>\<open>Filter\<close> returns
  the decoded output followed by the out-of-scope resources, with the exit error when
  \<open>DeferFailure\<close> is unset and with a nil error when it is set. This fails on the code.
  With \<open>DeferFailure\<close> set, provenance defaulting runs before the return: a decoded
  resource without origin path is returned with a default path and an index, so the
  returned collection is not the decoded one; and when defaulting fails, for a decoded
  resource whose metadata cannot be read, \<^verbatim>\<open>Filter\<close> returns no resource and a non-nil
  error. With either setting, a results file that cannot be written makes \<^verbatim>\<open>Filter\<close>
  return no resource and the write error.
\<close>

theorem Filter_nonzero_exit_counterexample:
  "DeferFailure (filter_at ''dir/fn.yaml'' False True)
   \<and> fst (Run (process (Some (Error ''exit status 1'')) [resource_new ''Foo'' ''bar''])
             (filter_at ''dir/fn.yaml'' False True) ''in'') = Some (Error ''exit status 1'')
   \<and> Filter (process (Some (Error ''exit status 1'')) [resource_new ''Foo'' ''bar''])
        (filter_at ''dir/fn.yaml'' False True)
        [resource_at ''A'' ''a'' ''dir/a.yaml'', resource_new ''Foo'' ''bar'',
         resource_at ''B'' ''b'' ''dir/sub/b.yaml'', resource_at ''C'' ''c'' ''other/c.yaml'']
      = ((filter_at ''dir/fn.yaml'' False True)\<lparr>Exit := Some (Error ''exit status 1'')\<rparr>,
         [resource_indexed ''Foo'' ''bar'' ''dir/fn/foo_bar.yaml'' ''0'']
           @ [resource_new ''Foo'' ''bar'', resource_at ''C'' ''c'' ''other/c.yaml''],
         None)
   \<and> [resource_indexed ''Foo'' ''bar'' ''dir/fn/foo_bar.yaml'' ''0'']
         @ [resource_new ''Foo'' ''bar'', resource_at ''C'' ''c'' ''other/c.yaml'']
       \<noteq> [resource_new ''Foo'' ''bar'']
         @ [resource_new ''Foo'' ''bar'', resource_at ''C'' ''c'' ''other/c.yaml'']
   \<and> Filter (process (Some (Error ''exit status 1'')) [resource_broken])
        (filter_at ''dir/fn.yaml'' False True)
        [resource_at ''A'' ''a'' ''dir/a.yaml'', resource_new ''Foo'' ''bar'',
         resource_at ''B'' ''b'' ''dir/sub/b.yaml'', resource_at ''C'' ''c'' ''other/c.yaml'']
      = ((filter_at ''dir/fn.yaml'' False True)\<lparr>Exit := Some (Error ''exit status 1'')\<rparr>,
         [], Some (Error ''no metadata''))
   \<and> Filter (process_results (Some (Error ''exit status 1'')) [resource_new ''Foo'' ''bar'']
                (resource_new ''Results'' ''r'') (Some (Error ''permission denied'')))
        (filter_results ''dir/fn.yaml'' ''results.yaml'' True)
        [resource_at ''A'' ''a'' ''dir/a.yaml'', resource_new ''Foo'' ''bar'',
         resource_at ''B'' ''b'' ''dir/sub/b.yaml'', resource_at ''C'' ''c'' ''other/c.yaml'']
      = ((filter_results ''dir/fn.yaml'' ''results.yaml'' True)\<lparr>Exit := Some (Error ''exit status 1'')\<rparr>,
         [], Some (Error ''permission denied''))
   \<and> Filter (process_results (Some (Error ''exit status 1'')) [resource_new ''Foo'' ''bar'']
                (resource_new ''Results'' ''r'') (Some (Error ''permission denied'')))
        (filter_results ''dir/fn.yaml'' ''results.yaml'' False)
        [resource_at ''A'' ''a'' ''dir/a.yaml'', resource_new ''Foo'' ''bar'',
         resource_at ''B'' ''b'' ''dir/sub/b.yaml'', resource_at ''C'' ''c'' ''other/c.yaml'']
      = ((filter_results ''dir/fn.yaml'' ''results.yaml'' False)\<lparr>Exit := Some (Error ''exit status 1'')\<rparr>,
         [], Some (Error ''permission denied''))"
proof -
  let ?e = "Error ''exit status 1''"
  let ?nodes = "[resource_at ''A'' ''a'' ''dir/a.yaml'', resource_new ''Foo'' ''bar'',
         resource_at ''B'' ''b'' ''dir/sub/b.yaml'', resource_at ''C'' ''c'' ''other/c.yaml'']"
  have d: "DeferFailure (filter_at ''dir/fn.yaml'' False True)"
    by (simp add: filter_at_def)
  have run: "fst (Run (process (Some ?e) [resource_new ''Foo'' ''bar''])
             (filter_at ''dir/fn.yaml'' False True) ''in'') = Some ?e"
    by (simp add: process_fields)
  have a: "Filter (process (Some ?e) [resource_new ''Foo'' ''bar''])
        (filter_at ''dir/fn.yaml'' False True) ?nodes
      = ((filter_at ''dir/fn.yaml'' False True)\<lparr>Exit := Some ?e\<rparr>,
         [resource_indexed ''Foo'' ''bar'' ''dir/fn/foo_bar.yaml'' ''0'']
           @ [resource_new ''Foo'' ''bar'', resource_at ''C'' ''c'' ''other/c.yaml''], None)"
    using d
    by (simp add: Filter_after_run [OF getFunctionScope_example_dir scope_example_dir
          process_fields(1) process_fields(2)]
        process_fields assignDefaults_example_indexed)
  have ne: "[resource_indexed ''Foo'' ''bar'' ''dir/fn/foo_bar.yaml'' ''0'']
         @ [resource_new ''Foo'' ''bar'', resource_at ''C'' ''c'' ''other/c.yaml'']
       \<noteq> [resource_new ''Foo'' ''bar'']
         @ [resource_new ''Foo'' ''bar'', resource_at ''C'' ''c'' ''other/c.yaml'']"
    by (simp add: resource_indexed_not_new)
  have b: "Filter (process (Some ?e) [resource_broken])
        (filter_at ''dir/fn.yaml'' False True) ?nodes
      = ((filter_at ''dir/fn.yaml'' False True)\<lparr>Exit := Some ?e\<rparr>, [], Some (Error ''no metadata''))"
    using d
    by (simp add: Filter_after_run [OF getFunctionScope_example_dir scope_example_dir
          process_fields(1) process_fields(2)]
        process_fields assignDefaults_example_broken)
  have c: "Filter (process_results (Some ?e) [resource_new ''Foo'' ''bar'']
                (resource_new ''Results'' ''r'') (Some (Error ''permission denied'')))
        (filter_results ''dir/fn.yaml'' ''results.yaml'' dfr) ?nodes
      = ((filter_results ''dir/fn.yaml'' ''results.yaml'' dfr)\<lparr>Exit := Some ?e\<rparr>,
         [], Some (Error ''permission denied''))" for dfr
    by (simp add: Filter_after_run [OF filter_results_scope(1) filter_results_scope(2)
          process_results_fields(1) process_results_fields(2)]
        process_results_fields)
  from d run a ne b c [of True] c [of False] show ?thesis by blast
qed

text \<open>
  Claim C7, amended. For every invocation whose process runs (scope resolution,
  partition and encoding succeed) and exits non-zero with the error \<open>exit\<close>: the exit
  status is recorded on the filter, and \<^verbatim>\<open>GetExit\<close> returns it, whatever happens next. If
  the output cannot be decoded, or the results cannot be recorded, \<^verbatim>\<open>Filter\<close> returns no
  resource and that error. Otherwise, if \<open>DeferFailure\<close> is unset, it returns the decoded
  output followed by the out-of-scope resources, together with the error \<open>exit\<close>; if
  \<open>DeferFailure\<close> is set, it runs provenance defaulting on the decoded output and
  returns what defaulting leaves of the output, followed by the out-of-scope resources,
  with a nil error, or, when defaulting fails, no resource and the error of defaulting.
\<close>

theorem Filter_nonzero_exit:
  assumes "getFunctionScope c = Inr functionDir"
    and "scope c functionDir nodes = Inr (input, saved)"
    and "Write env (Config c) input = Inr stdin"
    and "Run env c stdin = (Some exit, stdout)"
  shows "GetExit (fst (Filter env c nodes)) = Some exit
       \<and> (\<forall>err. Read env stdout = Inl err \<longrightarrow>
            snd (Filter env c nodes) = ([], Some err))
       \<and> (\<forall>output results c2.
            Read env stdout = Inr (output, results) \<longrightarrow>
            (\<forall>err. doResults env (c\<lparr>Exit := Some exit\<rparr>) results = (c2, Some err) \<longrightarrow>
               Filter env c nodes = (c2, [], Some err))
          \<and> (doResults env (c\<lparr>Exit := Some exit\<rparr>) results = (c2, None) \<longrightarrow>
               (\<not> DeferFailure c \<longrightarrow>
                  Filter env c nodes = (c2, output @ saved, Some exit))
             \<and> (DeferFailure c \<longrightarrow>
                  (\<forall>output'. DefaultPathAnnotation env functionDir output = Inr output' \<longrightarrow>
                     Filter env c nodes = (c2, output' @ saved, None))
                \<and> (\<forall>err. DefaultPathAnnotation env functionDir output = Inl err \<longrightarrow>
                     Filter env c nodes = (c2, [], Some err)))))"
proof -
  note f = Filter_after_run [OF assms]
  have exit: "GetExit (fst (Filter env c nodes)) = Some exit"
  proof (cases "Read env stdout")
    case (Inl err)
    with f show ?thesis by (simp add: GetExit_def)
  next
    case (Inr r)
    obtain outp rslt where r: "r = (outp, rslt)" by (cases r)
    obtain c2 e2 where dr: "doResults env (c\<lparr>Exit := Some exit\<rparr>) rslt = (c2, e2)"
      by (cases "doResults env (c\<lparr>Exit := Some exit\<rparr>) rslt")
    from doResults_fields(1) [OF dr] have "Exit c2 = Some exit" by simp
    with f Inr r dr show ?thesis
      by (cases e2; cases "DefaultPathAnnotation env functionDir outp")
         (simp_all add: GetExit_def)
  qed
  have rd: "\<forall>err. Read env stdout = Inl err \<longrightarrow> snd (Filter env c nodes) = ([], Some err)"
    using f by simp
  have rest: "\<forall>output results c2.
            Read env stdout = Inr (output, results) \<longrightarrow>
            (\<forall>err. doResults env (c\<lparr>Exit := Some exit\<rparr>) results = (c2, Some err) \<longrightarrow>
               Filter env c nodes = (c2, [], Some err))
          \<and> (doResults env (c\<lparr>Exit := Some exit\<rparr>) results = (c2, None) \<longrightarrow>
               (\<not> DeferFailure c \<longrightarrow>
                  Filter env c nodes = (c2, output @ saved, Some exit))
             \<and> (DeferFailure c \<longrightarrow>
                  (\<forall>output'. DefaultPathAnnotation env functionDir output = Inr output' \<longrightarrow>
                     Filter env c nodes = (c2, output' @ saved, None))
                \<and> (\<forall>err. DefaultPathAnnotation env functionDir output = Inl err \<longrightarrow>
                     Filter env c nodes = (c2, [], Some err))))"
    using f by simp
  from exit rd rest show ?thesis by blast
qed

theorem Filter_nonzero_exit_witness:
  "Filter (process (Some (Error ''exit status 1'')) [resource_new ''Foo'' ''bar''])
      (filter_at ''dir/fn.yaml'' False False)
      [resource_at ''A'' ''a'' ''dir/a.yaml'', resource_new ''Foo'' ''bar'',
       resource_at ''B'' ''b'' ''dir/sub/b.yaml'', resource_at ''C'' ''c'' ''other/c.yaml'']
    = ((filter_at ''dir/fn.yaml'' False False)\<lparr>Exit := Some (Error ''exit status 1'')\<rparr>,
       [resource_new ''Foo'' ''bar'']
         @ [resource_new ''Foo'' ''bar'', resource_at ''C'' ''c'' ''other/c.yaml''],
       Some (Error ''exit status 1''))
   \<and> Filter (process (Some (Error ''exit status 1'')) [resource_new ''Foo'' ''bar''])
      (filter_at ''dir/fn.yaml'' False True)
      [resource_at ''A'' ''a'' ''dir/a.yaml'', resource_new ''Foo'' ''bar'',
       resource_at ''B'' ''b'' ''dir/sub/b.yaml'', resource_at ''C'' ''c'' ''other/c.yaml'']
    = ((filter_at ''dir/fn.yaml'' False True)\<lparr>Exit := Some (Error ''exit status 1'')\<rparr>,
       [resource_indexed ''Foo'' ''bar'' ''dir/fn/foo_bar.yaml'' ''0'']
         @ [resource_new ''Foo'' ''bar'', resource_at ''C'' ''c'' ''other/c.yaml''],
       None)
   \<and> GetExit (fst (Filter (process (Some (Error ''exit status 1'')) [resource_new ''Foo'' ''bar''])
      (filter_at ''dir/fn.yaml'' False True)
      [resource_at ''A'' ''a'' ''dir/a.yaml'', resource_new ''Foo'' ''bar'',
       resource_at ''B'' ''b'' ''dir/sub/b.yaml'', resource_at ''C'' ''c'' ''other/c.yaml'']))
       = Some (Error ''exit status 1'')
   \<and> Filter (process (Some (Error ''exit status 1'')) [resource_broken])
      (filter_at ''dir/fn.yaml'' False True)
      [resource_at ''A'' ''a'' ''dir/a.yaml'', resource_new ''Foo'' ''bar'',
       resource_at ''B'' ''b'' ''dir/sub/b.yaml'', resource_at ''C'' ''c'' ''other/c.yaml'']
    = ((filter_at ''dir/fn.yaml'' False True)\<lparr>Exit := Some (Error ''exit status 1'')\<rparr>,
       [], Some (Error ''no metadata''))"
proof -
  let ?env = "process (Some (Error ''exit status 1'')) [resource_new ''Foo'' ''bar'']"
  let ?bad = "process (Some (Error ''exit status 1'')) [resource_broken]"
  let ?nodes = "[resource_at ''A'' ''a'' ''dir/a.yaml'', resource_new ''Foo'' ''bar'',
       resource_at ''B'' ''b'' ''dir/sub/b.yaml'', resource_at ''C'' ''c'' ''other/c.yaml'']"
  have unset: "\<not> DeferFailure (filter_at ''dir/fn.yaml'' False False)"
    and set: "DeferFailure (filter_at ''dir/fn.yaml'' False True)"
    by (simp_all add: filter_at_def)
  note t = Filter_nonzero_exit [OF getFunctionScope_example_dir scope_example_dir
      process_fields(1) process_fields(2)]
  note branch = t [THEN conjunct2, THEN conjunct2, rule_format, OF process_fields(3),
      THEN conjunct2, rule_format, OF process_fields(4)]
  have w1: "Filter ?env (filter_at ''dir/fn.yaml'' False False) ?nodes
      = ((filter_at ''dir/fn.yaml'' False False)\<lparr>Exit := Some (Error ''exit status 1'')\<rparr>,
         [resource_new ''Foo'' ''bar'']
           @ [resource_new ''Foo'' ''bar'', resource_at ''C'' ''c'' ''other/c.yaml''],
         Some (Error ''exit status 1''))"
    by (rule branch [THEN conjunct1, rule_format, OF unset])
  have w2: "Filter ?env (filter_at ''dir/fn.yaml'' False True) ?nodes
      = ((filter_at ''dir/fn.yaml'' False True)\<lparr>Exit := Some (Error ''exit status 1'')\<rparr>,
         [resource_indexed ''Foo'' ''bar'' ''dir/fn/foo_bar.yaml'' ''0'']
           @ [resource_new ''Foo'' ''bar'', resource_at ''C'' ''c'' ''other/c.yaml''],
         None)"
    by (rule branch [THEN conjunct2, rule_format, OF set, THEN conjunct1, rule_format])
       (simp add: process_fields(5) assignDefaults_example_indexed)
  have w3: "GetExit (fst (Filter ?env (filter_at ''dir/fn.yaml'' False True) ?nodes))
      = Some (Error ''exit status 1'')"
    by (rule t [THEN conjunct1])
  have w4: "Filter ?bad (filter_at ''dir/fn.yaml'' False True) ?nodes
      = ((filter_at ''dir/fn.yaml'' False True)\<lparr>Exit := Some (Error ''exit status 1'')\<rparr>,
         [], Some (Error ''no metadata''))"
    by (rule branch [THEN conjunct2, rule_format, OF set, THEN conjunct2, rule_format])
       (simp add: process_fields(5) assignDefaults_example_broken)
  from w1 w2 w3 w4 show ?thesis by blast
qed

subsection \<open>Metadata errors\<close>

text \<open>
  Claim C8. For every input collection: when the partition reads the resources (the
  scope is not global) and the metadata of some resource cannot be retrieved, \<^verbatim>\<open>scope\<close>
  returns an error, the metadata error of the first such resource, and no bucket at
  all, and \<^verbatim>\<open>Filter\<close> returns that error and no resource. Likewise, when the metadata of the
  function configuration cannot be retrieved, \<^verbatim>\<open>getFunctionScope\<close> returns that error
  wrapped, and so does \<^verbatim>\<open>Filter\<close>.
\<close>

theorem scope_metadata_error_aborts:
  "(\<not> GlobalScope c \<and> dir \<noteq> [] \<and> dir \<noteq> ''.'' \<and> n \<in> set nodes \<and> GetMeta n = Inl err \<longrightarrow>
      (\<exists>pre n' post err'. nodes = pre @ n' # post
         \<and> (\<forall>x\<in>set pre. \<exists>m. GetMeta x = Inr m) \<and> GetMeta n' = Inl err'
         \<and> scope c dir nodes = Inl err'
         \<and> (getFunctionScope c = Inr dir \<longrightarrow> Filter env c nodes = (c, [], Some err'))))
   \<and> (GetMeta (Config c) = Inl err \<longrightarrow>
        getFunctionScope c = Inl (Wrapped err) \<and> Filter env c nodes = (c, [], Some (Wrapped err)))"
proof (intro conjI impI)
  assume a: "\<not> GlobalScope c \<and> dir \<noteq> [] \<and> dir \<noteq> ''.'' \<and> n \<in> set nodes \<and> GetMeta n = Inl err"
  then obtain pre n' post err' where split: "nodes = pre @ n' # post"
      and pre: "\<forall>x\<in>set pre. \<exists>m. GetMeta x = Inr m" and n': "GetMeta n' = Inl err'"
      and e: "scope_loop dir nodes [] [] = Inl err'"
    using scope_loop_Inl [of n nodes err dir "[]" "[]"] by blast
  from a e have s: "scope c dir nodes = Inl err'" by (simp add: scope_def)
  have "getFunctionScope c = Inr dir \<longrightarrow> Filter env c nodes = (c, [], Some err')"
    using s by (simp add: Filter_def)
  with s split pre n'
  show "\<exists>pre n' post err'. nodes = pre @ n' # post
         \<and> (\<forall>x\<in>set pre. \<exists>m. GetMeta x = Inr m) \<and> GetMeta n' = Inl err'
         \<and> scope c dir nodes = Inl err'
         \<and> (getFunctionScope c = Inr dir \<longrightarrow> Filter env c nodes = (c, [], Some err'))"
    by blast
next
  assume "GetMeta (Config c) = Inl err"
  then show "getFunctionScope c = Inl (Wrapped err)" by (simp add: getFunctionScope_def)
next
  assume "GetMeta (Config c) = Inl err"
  then show "Filter env c nodes = (c, [], Some (Wrapped err))"
    by (simp add: Filter_def getFunctionScope_def)
qed

theorem scope_metadata_error_aborts_witness:
  "scope (filter_at ''dir/fn.yaml'' False False) ''dir''
       [resource_at ''A'' ''a'' ''dir/a.yaml'', resource_broken,
        resource_at ''B'' ''b'' ''dir/sub/b.yaml''] = Inl (Error ''no metadata'')
   \<and> getFunctionScope ((filter_at ''dir/fn.yaml'' False False)\<lparr>Config := resource_broken\<rparr>)
       = Inl (Wrapped (Error ''no metadata''))"
proof -
  let ?c = "filter_at ''dir/fn.yaml'' False False"
  let ?nodes = "[resource_at ''A'' ''a'' ''dir/a.yaml'', resource_broken,
        resource_at ''B'' ''b'' ''dir/sub/b.yaml'']"
  have "\<not> GlobalScope ?c \<and> ''dir'' \<noteq> [] \<and> ''dir'' \<noteq> ''.'' \<and> resource_broken \<in> set ?nodes
      \<and> GetMeta resource_broken = Inl (Error ''no metadata'')"
    by (simp add: filter_at_def resource_broken_def)
  with scope_metadata_error_aborts [of ?c "''dir''" resource_broken ?nodes "Error ''no metadata''"]
  obtain pre n' post err' where s: "scope ?c ''dir'' ?nodes = Inl err'"
    and split: "?nodes = pre @ n' # post" and n: "GetMeta n' = Inl err'"
    by blast
  from split have "n' \<in> set ?nodes" by (metis in_set_conv_decomp)
  with n have "err' = Error ''no metadata''"
    by (auto simp: resource_at_def resource_broken_def)
  moreover have "GetMeta (Config (?c\<lparr>Config := resource_broken\<rparr>)) = Inl (Error ''no metadata'')"
    by (simp add: resource_broken_def)
  ultimately show ?thesis
    using s scope_metadata_error_aborts [of "?c\<lparr>Config := resource_broken\<rparr>" _ _ _ "Error ''no metadata''"]
    by simp
qed

subsection \<open>StringToStorageMount can panic\<close>

text \<open>
  An option without an equals sign is split into a single element, so the read of
  \<^verbatim>\<open>keyVal[1]\<close> is out of range.
\<close>

lemma length_SplitN2:
  "length (strings_SplitN2 s sep) = (if sep \<in> set s then 2 else 1)"
  by (simp add: strings_SplitN2_def)

lemma fill_options_panics:
  "(\<exists>opt\<in>set options. CHR ''='' \<notin> set opt) \<Longrightarrow>
     fill_options options m = Inl (IndexOutOfRange 1 1)"
  by (induction options arbitrary: m) (auto simp: Let_def length_SplitN2)

lemma fill_options_returns:
  "(\<forall>opt\<in>set options. CHR ''='' \<in> set opt) \<Longrightarrow> \<exists>m'. fill_options options m = Inr m'"
  by (induction options arbitrary: m) (auto simp: Let_def length_SplitN2)

text \<open>
  Claim C9. \<^verbatim>\<open>StringToStorageMount\<close> is not total: on the empty string, and on every
  string one of whose comma-separated options holds no equals sign, it indexes past
  the end of the split result and panics (index 1, length 1) instead of returning a
  \<^verbatim>\<open>StorageMount\<close>. On every other string it returns one.
\<close>

theorem StringToStorageMount_not_total:
  "StringToStorageMount [] = Inl (IndexOutOfRange 1 1)
   \<and> (\<forall>s. (\<exists>opt\<in>set (strings_Split s CHR '',''). CHR ''='' \<notin> set opt) \<longrightarrow>
          StringToStorageMount s = Inl (IndexOutOfRange 1 1))
   \<and> (\<forall>s. (\<forall>opt\<in>set (strings_Split s CHR '',''). CHR ''='' \<in> set opt) \<longrightarrow>
          (\<exists>sm. StringToStorageMount s = Inr sm))"
proof (intro conjI allI impI)
  show "StringToStorageMount [] = Inl (IndexOutOfRange 1 1)"
    by (simp add: StringToStorageMount_def strings_SplitN2_def strings_Split.simps)
next
  fix s assume "\<exists>opt\<in>set (strings_Split s CHR '',''). CHR ''='' \<notin> set opt"
  from fill_options_panics [OF this] show "StringToStorageMount s = Inl (IndexOutOfRange 1 1)"
    by (simp add: StringToStorageMount_def)
next
  fix s assume "\<forall>opt\<in>set (strings_Split s CHR '',''). CHR ''='' \<in> set opt"
  from fill_options_returns [OF this, of Map.empty] show "\<exists>sm. StringToStorageMount s = Inr sm"
    by (auto simp: StringToStorageMount_def)
qed

theorem StringToStorageMount_not_total_witness:
  "StringToStorageMount ''type=bind,src'' = Inl (IndexOutOfRange 1 1)
   \<and> StringToStorageMount ''type=bind,src=/a,dst=/b''
       = Inr \<lparr>MountType = ''bind'', Src = ''/a'', DstPath = ''/b''\<rparr>"
proof -
  have "\<exists>opt\<in>set (strings_Split ''type=bind,src'' CHR '',''). CHR ''='' \<notin> set opt"
    by (simp add: strings_Split.simps)
  with StringToStorageMount_not_total
  have p: "StringToStorageMount ''type=bind,src'' = Inl (IndexOutOfRange 1 1)"
    by blast
  have "\<forall>opt\<in>set (strings_Split ''type=bind,src=/a,dst=/b'' CHR '',''). CHR ''='' \<in> set opt"
    by (simp add: strings_Split.simps)
  with StringToStorageMount_not_total
  obtain sm where "StringToStorageMount ''type=bind,src=/a,dst=/b'' = Inr sm"
    by blast
  then have "StringToStorageMount ''type=bind,src=/a,dst=/b''
       = Inr \<lparr>MountType = ''bind'', Src = ''/a'', DstPath = ''/b''\<rparr>"
    by (simp add: StringToStorageMount_def strings_SplitN2_def mount_of_options_def
        strings_Split.simps)
  with p show ?thesis by simp
qed

subsection \<open>The failure path skips provenance defaulting\<close>

text \<open>
  Claim C10. When the process exits non-zero and \<open>DeferFailure\<close> is unset, \<^verbatim>\<open>Filter\<close>
  returns before provenance defaulting: whatever provenance defaulting would do (\<open>d\<close>
  is arbitrary), the resources the function emitted are returned exactly as decoded,
  so those without an origin-path annotation still have none.
\<close>

theorem Filter_failure_skips_defaulting:
  assumes "getFunctionScope c = Inr functionDir"
    and "scope c functionDir nodes = Inr (input, saved)"
    and "Write env (Config c) input = Inr stdin"
    and "Run env c stdin = (Some exit, stdout)"
    and "Read env stdout = Inr (output, results)"
    and "doResults env (c\<lparr>Exit := Some exit\<rparr>) results = (c2, None)"
    and "\<not> DeferFailure c"
  shows "Filter (env\<lparr>DefaultPathAnnotation := d\<rparr>) c nodes = (c2, output @ saved, Some exit)"
proof -
  let ?env = "env\<lparr>DefaultPathAnnotation := d\<rparr>"
  have "Write ?env (Config c) input = Inr stdin" and "Run ?env c stdin = (Some exit, stdout)"
    and "Read ?env stdout = Inr (output, results)"
    and "doResults ?env (c\<lparr>Exit := Some exit\<rparr>) results = (c2, None)"
    using assms(3-6) by (simp_all add: doResults_env)
  from Filter_after_process [OF assms(1,2) this] assms(7) show ?thesis by simp
qed

theorem Filter_failure_skips_defaulting_witness:
  "Filter ((process (Some (Error ''exit status 1'')) [resource_new ''Foo'' ''bar''])
             \<lparr>DefaultPathAnnotation := assignDefaults ''fn'' (\<lambda>c. CHR ''_'')\<rparr>)
      (filter_at ''dir/fn.yaml'' False False)
      [resource_at ''A'' ''a'' ''dir/a.yaml'', resource_new ''Foo'' ''bar'',
       resource_at ''B'' ''b'' ''dir/sub/b.yaml'', resource_at ''C'' ''c'' ''other/c.yaml'']
    = ((filter_at ''dir/fn.yaml'' False False)\<lparr>Exit := Some (Error ''exit status 1'')\<rparr>,
       [resource_new ''Foo'' ''bar'']
         @ [resource_new ''Foo'' ''bar'', resource_at ''C'' ''c'' ''other/c.yaml''],
       Some (Error ''exit status 1''))
   \<and> assignDefaults ''fn'' (\<lambda>c. CHR ''_'') ''dir'' [resource_new ''Foo'' ''bar'']
       \<noteq> Inr [resource_new ''Foo'' ''bar'']"
proof -
  let ?env = "process (Some (Error ''exit status 1'')) [resource_new ''Foo'' ''bar'']"
  have unset: "\<not> DeferFailure (filter_at ''dir/fn.yaml'' False False)"
    by (simp add: filter_at_def)
  have "[PathAnnotation \<mapsto> ''dir/fn/foo_bar.yaml'', IndexAnnotation \<mapsto> ''0''] PathAnnotation
      \<noteq> (Map.empty :: string \<rightharpoonup> string) PathAnnotation"
    by (simp add: PathAnnotation_def IndexAnnotation_def)
  then have "[PathAnnotation \<mapsto> ''dir/fn/foo_bar.yaml'', IndexAnnotation \<mapsto> ''0'']
      \<noteq> (Map.empty :: string \<rightharpoonup> string)"
    by metis
  then have "assignDefaults ''fn'' (\<lambda>c. CHR ''_'') ''dir'' [resource_new ''Foo'' ''bar'']
       \<noteq> Inr [resource_new ''Foo'' ''bar'']"
    unfolding assignDefaults_example_new by (simp add: resource_new_def resource_at_def)
  with Filter_failure_skips_defaulting [of "filter_at ''dir/fn.yaml'' False False" "''dir''" _ _ _ ?env,
      OF getFunctionScope_example_dir scope_example_dir
         process_fields(1) process_fields(2) process_fields(3) process_fields(4) unset]
  show ?thesis by simp
qed

end
